theory Spec2Isabelle
  imports Complex_Main "HOL-Library.Sublist" "HOL-Library.Char_ord"
begin

section \<open>JavaScript string primitives\<close>

text \<open>
  A string is the list of its code units; \<open>char\<close> stands for a code unit. The
  type has 256 values where JavaScript has 65536; the program compares code units
  with ASCII characters only, so nothing below depends on their number.
  \<open>String.prototype.toLowerCase\<close> and \<open>decodeURIComponent\<close> belong to the
  JavaScript engine, not to the program, and the first follows the Unicode case
  mappings: it need not keep the length of a string. Both are parameters of the
  model, the fields of \<open>js_engine\<close>; \<open>None\<close> is the \<open>URIError\<close> of
  \<open>decodeURIComponent\<close>.
\<close>

record js_engine =
  toLowerCase :: "string \<Rightarrow> string"
  decodeURIComponent :: "string \<Rightarrow> string option"

text \<open>
  What \<open>toLowerCase\<close> does on ASCII text: \<open>A\<close>..\<open>Z\<close> become \<open>a\<close>..\<open>z\<close> and
  every other character stays. \<open>asciiEngine\<close> is an engine as it behaves on ASCII
  strings without percent escapes; the concrete scenarios below use it.
\<close>

definition toLowerChar :: "char \<Rightarrow> char" where
  "toLowerChar c =
     (let n = (of_char c :: nat) in if 65 \<le> n \<and> n \<le> 90 then char_of (n + 32) else c)"

definition asciiLower :: "string \<Rightarrow> string" where
  "asciiLower s = map toLowerChar s"

definition asciiEngine :: js_engine where
  "asciiEngine = \<lparr>toLowerCase = asciiLower, decodeURIComponent = Some\<rparr>"


text \<open>\<open>s.startsWith(p)\<close>\<close>

fun startsWith :: "string \<Rightarrow> string \<Rightarrow> bool" where
  "startsWith s [] = True"
| "startsWith [] (p # ps) = False"
| "startsWith (c # cs) (p # ps) = (c = p \<and> startsWith cs ps)"

text \<open>\<open>s.includes(p)\<close>: \<open>p\<close> occurs in \<open>s\<close> as a contiguous substring.\<close>

fun str_includes :: "string \<Rightarrow> string \<Rightarrow> bool" where
  "str_includes [] p = (p = [])"
| "str_includes (c # cs) p = (startsWith (c # cs) p \<or> str_includes cs p)"

text \<open>
  The decimal rendering of a non-negative integer, as a template literal
  \<^verbatim>\<open>`${n}`\<close> produces it for a file size.
\<close>

definition digitChar :: "nat \<Rightarrow> char" where
  "digitChar d = char_of (48 + d)"

fun numToString :: "nat \<Rightarrow> string" where
  "numToString n =
     (if n < 10 then [digitChar n] else numToString (n div 10) @ [digitChar (n mod 10)])"

declare numToString.simps [simp del]

section \<open>Data model\<close>

datatype category = cache | downloads | duplicates | media | logs

text \<open>
  A file record as both scanners build it. The server stores the identifier under
  \<open>path\<close>, the client under \<open>uri\<close>; the field \<open>path\<close> stands for both. The field
  \<open>fsize\<close> is the source's \<open>size\<close> (bytes). \<open>category\<close> is \<open>None\<close> for the
  source's \<open>null\<close>.
\<close>

record file_rec =
  path :: string
  name :: string
  fsize :: nat
  category :: "category option"

record category_summary =
  cid :: category
  cname :: string
  description :: string
  sizeMB :: nat

text \<open>
  What \<open>scanRoot\<close> returns. \<open>lastScan\<close> is the timestamp read from the clock; the
  model takes it as an input.
\<close>

record scan_snapshot =
  lastScan :: string
  totalUsedMB :: nat
  totalReclaimableMB :: nat
  categories :: "category_summary list"
  categoryFiles :: "category \<Rightarrow> file_rec list"

text \<open>
  A history entry. The source's property names are \<open>id\<close>, \<open>time\<close>, \<open>cleanedMB\<close>,
  \<open>cleanedFiles\<close>, \<open>categories\<close> and \<open>simulated\<close>.
\<close>

record history_entry =
  e_id :: string
  e_time :: string
  e_cleanedMB :: nat
  e_cleanedFiles :: nat
  e_categories :: "string list"
  e_simulated :: bool

section \<open>Summarizer arithmetic\<close>

definition MB :: nat where
  "MB = 1024 * 1024"

text \<open>
  \<^verbatim>\<open>const toMB = (bytes) => Math.max(0, Math.round(bytes / MB));\<close>

  \<open>Math.round\<close> rounds to the nearest integer, a half upwards, as \<open>round\<close> does
  on the reals. A byte count is a non-negative integer below \<open>2^53\<close>, so the
  quotient by \<open>2^20\<close> is exact in a double. Lemma \<open>toMB_div\<close> below gives the
  same value by integer division.
\<close>

definition toMB :: "nat \<Rightarrow> nat" where
  "toMB bytes = nat (max 0 (round (real bytes / real MB)))"

text \<open>The client's \<^verbatim>\<open>Math.round(bytes / (1024 * 1024))\<close>, without the clamp.\<close>

definition roundMB :: "nat \<Rightarrow> nat" where
  "roundMB bytes = nat (round (real bytes / (1024 * 1024)))"

text \<open>\<^verbatim>\<open>list.reduce((s, f) => s + f.size, 0)\<close>\<close>

definition sumSizes :: "file_rec list \<Rightarrow> nat" where
  "sumSizes fs = fold (\<lambda>f s. s + fsize f) fs 0"

section \<open>Deduplicator\<close>

text \<open>
  \<^verbatim>\<open>
  const duplicateMap = new Map();
  for (const file of files) {
    const key = `${file.name}:${file.size}`;
    if (!duplicateMap.has(key)) duplicateMap.set(key, []);
    duplicateMap.get(key).push(file);
  }
  \<close>
  A JavaScript \<open>Map\<close> iterates in insertion order, so it is an association list
  with new keys appended. The groups hold the very objects of \<open>files\<close>; an object is
  identified here by its index in \<open>files\<close>, and a group is a list of indices.
\<close>

type_synonym dupmap = "(string \<times> nat list) list"

definition fileKey :: "file_rec \<Rightarrow> string" where
  "fileKey f = name f @ '':'' @ numToString (fsize f)"

fun dm_push :: "string \<Rightarrow> nat \<Rightarrow> dupmap \<Rightarrow> dupmap" where
  "dm_push k i [] = [(k, [i])]"
| "dm_push k i ((k', g) # m) =
     (if k = k' then (k', g @ [i]) # m else (k', g) # dm_push k i m)"

definition buildDuplicateMap :: "file_rec list \<Rightarrow> dupmap" where
  "buildDuplicateMap files =
     fold (\<lambda>i m. dm_push (fileKey (files ! i)) i m) [0..<length files] []"

text \<open>
  \<^verbatim>\<open>
  for (const [, group] of duplicateMap.entries()) {
    if (group.length > 1) {
      for (const file of group.slice(1)) {
        file.category = "duplicates";
      }
    }
  }
  \<close>
  The assignment mutates the object shared with \<open>files\<close>: the record at that index.
\<close>

definition setDuplicate :: "nat \<Rightarrow> file_rec list \<Rightarrow> file_rec list" where
  "setDuplicate i files = files[i := (files ! i)\<lparr>category := Some duplicates\<rparr>]"

definition markGroup :: "nat list \<Rightarrow> file_rec list \<Rightarrow> file_rec list" where
  "markGroup grp files =
     (if length grp > 1 then fold setDuplicate (drop 1 grp) files else files)"

definition markDuplicates :: "file_rec list \<Rightarrow> file_rec list" where
  "markDuplicates files =
     fold (\<lambda>(k, grp) fs. markGroup grp fs) (buildDuplicateMap files) files"

section \<open>Summarizer\<close>

text \<open>
  \<^verbatim>\<open>
  for (const file of files) {
    if (file.category && categoryFiles[file.category]) {
      categoryFiles[file.category].push(file);
    }
  }
  \<close>
\<close>

definition pushCategory ::
  "file_rec \<Rightarrow> (category \<Rightarrow> file_rec list) \<Rightarrow> (category \<Rightarrow> file_rec list)" where
  "pushCategory f cf =
     (case category f of None \<Rightarrow> cf | Some c \<Rightarrow> cf(c := cf c @ [f]))"

definition buildCategoryFiles :: "file_rec list \<Rightarrow> (category \<Rightarrow> file_rec list)" where
  "buildCategoryFiles files = fold pushCategory files (\<lambda>c. [])"

text \<open>The server's summary (lines 134 to 176 of the server file).\<close>

definition summarize :: "string \<Rightarrow> file_rec list \<Rightarrow> scan_snapshot" where
  "summarize now files =
     (let cf = buildCategoryFiles files;
          cats =
            [\<lparr>cid = cache, cname = ''App Cache'', description = ''Temporary app data'',
              sizeMB = toMB (sumSizes (cf cache))\<rparr>,
             \<lparr>cid = downloads, cname = ''Downloads'', description = ''Unsorted files'',
              sizeMB = toMB (sumSizes (cf downloads))\<rparr>,
             \<lparr>cid = duplicates, cname = ''Duplicates'', description = ''Exact file copies'',
              sizeMB = toMB (sumSizes (cf duplicates))\<rparr>,
             \<lparr>cid = media, cname = ''Large Media'', description = ''Videos and archives'',
              sizeMB = toMB (sumSizes (cf media))\<rparr>,
             \<lparr>cid = logs, cname = ''Old Logs'', description = ''System logs'',
              sizeMB = toMB (sumSizes (cf logs))\<rparr>]
      in \<lparr>lastScan = now,
          totalUsedMB = toMB (sumSizes files),
          totalReclaimableMB = fold (\<lambda>c s. s + sizeMB c) cats 0,
          categories = cats,
          categoryFiles = cf\<rparr>)"

text \<open>
  The client's \<open>buildCategories\<close>: the same grouping and marking, then
  \<open>summarize(id, name, description)\<close> with \<open>Math.round\<close> and no clamp. It returns
  \<open>{ list, categories, totalUsedMB, totalReclaimableMB }\<close>.
\<close>

record client_summary =
  clist :: "category_summary list"
  ccategories :: "category \<Rightarrow> file_rec list"
  ctotalUsedMB :: nat
  ctotalReclaimableMB :: nat

definition buildCategories :: "file_rec list \<Rightarrow> client_summary" where
  "buildCategories files0 =
     (let files = markDuplicates files0;
          cats = buildCategoryFiles files;
          summ = (\<lambda>i n d. \<lparr>cid = i, cname = n, description = d,
                            sizeMB = roundMB (sumSizes (cats i))\<rparr>);
          lst = [summ cache ''App Cache'' ''Temporary app data'',
                 summ downloads ''Downloads'' ''Unsorted files'',
                 summ duplicates ''Duplicates'' ''Exact file copies'',
                 summ media ''Large Media'' ''Videos and archives'',
                 summ logs ''Old Logs'' ''System logs'']
      in \<lparr>clist = lst,
          ccategories = cats,
          ctotalUsedMB = roundMB (sumSizes files),
          ctotalReclaimableMB = fold (\<lambda>c s. s + sizeMB c) lst 0\<rparr>)"

section \<open>Node's \<open>path\<close> module (POSIX)\<close>

text \<open>
  The server runs on Node and uses \<open>path.sep\<close>, \<open>path.join\<close>, \<open>path.resolve\<close> and
  \<open>path.extname\<close>. They are modelled for a POSIX host (\<open>path.sep = "/"\<close>), after
  Node's \<open>lib/path.js\<close>.
\<close>

definition sep :: string where
  "sep = ''/''"

text \<open>\<open>s.split("/")\<close>: never empty; \<open>"".split("/")\<close> is \<open>[""]\<close>.\<close>

fun splitSep :: "string \<Rightarrow> string list" where
  "splitSep [] = [[]]"
| "splitSep (c # cs) =
     (if c = CHR ''/'' then [] # splitSep cs
      else (case splitSep cs of [] \<Rightarrow> [[c]] | s # ss \<Rightarrow> (c # s) # ss))"

text \<open>\<open>segs.join("/")\<close>\<close>

fun joinSep :: "string list \<Rightarrow> string" where
  "joinSep [] = []"
| "joinSep [s] = s"
| "joinSep (s # t # ss) = s @ ''/'' @ joinSep (t # ss)"

text \<open>
  \<open>normalizeString(path, allowAboveRoot)\<close>: drops empty and \<open>.\<close> segments and
  resolves \<open>..\<close> against the segment before it. \<open>out\<close> is the result so far,
  last segment first.
\<close>

fun normSegs :: "bool \<Rightarrow> string list \<Rightarrow> string list \<Rightarrow> string list" where
  "normSegs allowAboveRoot [] out = rev out"
| "normSegs allowAboveRoot (s # ss) out =
     (if s = [] \<or> s = ''.'' then normSegs allowAboveRoot ss out
      else if s = ''..'' then
        (case out of
           [] \<Rightarrow> normSegs allowAboveRoot ss (if allowAboveRoot then [''..''] else [])
         | t # ts \<Rightarrow>
             if t = ''..''
             then normSegs allowAboveRoot ss (if allowAboveRoot then ''..'' # t # ts else t # ts)
             else normSegs allowAboveRoot ss ts)
      else normSegs allowAboveRoot ss (s # out))"

definition normalizeString :: "string \<Rightarrow> bool \<Rightarrow> string" where
  "normalizeString p allowAboveRoot = joinSep (normSegs allowAboveRoot (splitSep p) [])"

definition isAbsolute :: "string \<Rightarrow> bool" where
  "isAbsolute p = (case p of [] \<Rightarrow> False | c # cs \<Rightarrow> c = CHR ''/'')"

definition path_normalize :: "string \<Rightarrow> string" where
  "path_normalize p =
     (if p = [] then ''.''
      else
        (let trailingSeparator = (last p = CHR ''/'');
             s = normalizeString p (\<not> isAbsolute p)
         in if s = [] then (if isAbsolute p then ''/'' else if trailingSeparator then ''./'' else ''.'')
            else (let s' = (if trailingSeparator then s @ ''/'' else s)
                  in if isAbsolute p then ''/'' @ s' else s')))"

text \<open>\<open>path.join(a, b)\<close>: the non-empty arguments joined by \<open>/\<close>, then normalized.\<close>

definition path_join :: "string \<Rightarrow> string \<Rightarrow> string" where
  "path_join a b =
     (let joined = (if a = [] then b else if b = [] then a else a @ ''/'' @ b)
      in if joined = [] then ''.'' else path_normalize joined)"

text \<open>
  \<open>path.resolve(p)\<close>: an absolute \<open>p\<close> is normalized; a relative one is taken against
  the working directory \<open>cwd\<close> (an absolute path, \<open>process.cwd()\<close>). The result has no
  trailing separator, except for the root \<open>/\<close>.
\<close>

definition path_resolve :: "string \<Rightarrow> string \<Rightarrow> string" where
  "path_resolve cwd p =
     ''/'' @ normalizeString (if isAbsolute p then p else cwd @ ''/'' @ p) False"

text \<open>\<open>s.lastIndexOf(c)\<close>; \<open>None\<close> stands for \<open>-1\<close>.\<close>

fun lastIndexOf :: "char \<Rightarrow> string \<Rightarrow> nat option" where
  "lastIndexOf c [] = None"
| "lastIndexOf c (x # xs) =
     (case lastIndexOf c xs of
        Some i \<Rightarrow> Some (Suc i)
      | None \<Rightarrow> if x = c then Some 0 else None)"

text \<open>
  \<open>path.extname(p)\<close>: in the last path component (trailing separators ignored), the
  text from the last dot on; empty when there is no dot, when the dot is the
  component's first character, or when the component is \<open>..\<close>.
\<close>

definition basenamePart :: "string \<Rightarrow> string" where
  "basenamePart p =
     rev (takeWhile (\<lambda>c. c \<noteq> CHR ''/'') (dropWhile (\<lambda>c. c = CHR ''/'') (rev p)))"

definition path_extname :: "string \<Rightarrow> string" where
  "path_extname p =
     (let base = basenamePart p
      in case lastIndexOf (CHR ''.'') base of
           None \<Rightarrow> []
         | Some i \<Rightarrow> if i = 0 \<or> base = ''..'' then [] else drop i base)"

section \<open>Categorizer\<close>

definition MEDIA_EXTS :: "string list" where
  "MEDIA_EXTS = [''.mp4'', ''.mov'', ''.mkv'', ''.avi'', ''.zip'', ''.rar'', ''.7z'', ''.tar'',
                 ''.gz'', ''.iso'']"

definition LOG_EXTS :: "string list" where
  "LOG_EXTS = [''.log'']"

definition IGNORED_DIRS :: "string list" where
  "IGNORED_DIRS = [''node_modules'', ''.git'', ''.expo'']"

text \<open>
  \<^verbatim>\<open>
  const categorizeFile = (filePath) => {
    const lower = filePath.toLowerCase();
    if (lower.includes(`${path.sep}cache${path.sep}`) || lower.includes(`${path.sep}tmp${path.sep}`)) {
      return "cache";
    }
    if (lower.includes(`${path.sep}downloads${path.sep}`)) {
      return "downloads";
    }
    const ext = path.extname(lower);
    if (MEDIA_EXTS.has(ext)) return "media";
    if (LOG_EXTS.has(ext)) return "logs";
    return null;
  };
  \<close>
\<close>

definition categorizeFile :: "js_engine \<Rightarrow> string \<Rightarrow> category option" where
  "categorizeFile eng filePath =
     (let lower = toLowerCase eng filePath
      in if str_includes lower (sep @ ''cache'' @ sep) \<or> str_includes lower (sep @ ''tmp'' @ sep)
         then Some cache
         else if str_includes lower (sep @ ''downloads'' @ sep) then Some downloads
         else (let ext = path_extname lower
               in if ext \<in> set MEDIA_EXTS then Some media
                  else if ext \<in> set LOG_EXTS then Some logs
                  else None))"

text \<open>
  The client's categorizer.
  \<^verbatim>\<open>
  const categorizeName = (name, uri) => {
    const lower = `${name} ${uri}`.toLowerCase();
    if (lower.includes("/cache/") || lower.includes("/tmp/")) return "cache";
    if (lower.includes("downloads") || lower.includes("download")) return "downloads";
    const ext = name.toLowerCase().slice(name.lastIndexOf("."));
    if (MEDIA_EXTS.has(ext)) return "media";
    if (LOG_EXTS.has(ext)) return "logs";
    return null;
  };
  \<close>
  \<open>s.slice(i)\<close> drops the first \<open>i\<close> characters; \<open>s.slice(-1)\<close>, reached when the
  name has no dot, keeps the last character. The index is that of the last dot in
  the name as given; the string that is sliced is the lower-cased name.
\<close>

definition sliceFrom :: "string \<Rightarrow> nat option \<Rightarrow> string" where
  "sliceFrom s i = (case i of None \<Rightarrow> drop (length s - 1) s | Some k \<Rightarrow> drop k s)"

definition categorizeName :: "js_engine \<Rightarrow> string \<Rightarrow> string \<Rightarrow> category option" where
  "categorizeName eng nm uri =
     (let lower = toLowerCase eng (nm @ '' '' @ uri)
      in if str_includes lower ''/cache/'' \<or> str_includes lower ''/tmp/'' then Some cache
         else if str_includes lower ''downloads'' \<or> str_includes lower ''download''
         then Some downloads
         else (let ext = sliceFrom (toLowerCase eng nm) (lastIndexOf (CHR ''.'') nm)
               in if ext \<in> set MEDIA_EXTS then Some media
                  else if ext \<in> set LOG_EXTS then Some logs
                  else None))"

text \<open>
  \<^verbatim>\<open>
  const guessNameFromUri = (uri) => {
    const last = uri.split("/").pop() || uri;
    try { return decodeURIComponent(last); } catch { return last; }
  };
  \<close>
\<close>

definition guessNameFromUri :: "js_engine \<Rightarrow> string \<Rightarrow> string" where
  "guessNameFromUri eng uri =
     (let popped = last (splitSep uri);
          lst = (if popped = [] then uri else popped)
      in case decodeURIComponent eng lst of Some d \<Rightarrow> d | None \<Rightarrow> lst)"

section \<open>The server's file system\<close>

text \<open>
  What \<open>readdir\<close>, \<open>stat\<close> and \<open>unlink\<close> see below the storage root. A regular
  file carries the result of \<open>stat\<close> (its size, or \<open>None\<close> when \<open>stat\<close> throws) and
  whether \<open>unlink\<close> succeeds on it. A directory carries its listing in \<open>readdir\<close>
  order; \<open>DirUnreadable\<close> is a directory whose \<open>readdir\<close> throws. \<open>Other\<close> is an
  entry that is neither a directory nor a regular file (a symbolic link, a socket):
  with \<open>withFileTypes\<close>, \<open>isDirectory()\<close> and \<open>isFile()\<close> are both false for it.
\<close>

datatype node =
    File "nat option" bool
  | Dir "(string \<times> node) list"
  | DirUnreadable
  | Other

fun isDirectory :: "node \<Rightarrow> bool" where
  "isDirectory (Dir es) = True"
| "isDirectory DirUnreadable = True"
| "isDirectory n = False"

fun isFile :: "node \<Rightarrow> bool" where
  "isFile (File st u) = True"
| "isFile n = False"

text \<open>\<open>fs.promises.readdir\<close>; \<open>None\<close> when it throws (also on a path that is no directory).\<close>

fun readdir :: "node \<Rightarrow> (string \<times> node) list option" where
  "readdir (Dir es) = Some es"
| "readdir n = None"

text \<open>\<open>fs.promises.stat(...).size\<close>; \<open>None\<close> when \<open>stat\<close> throws.\<close>

fun stat_size :: "node \<Rightarrow> nat option" where
  "stat_size (File st u) = st"
| "stat_size n = None"

text \<open>
  What the server process runs with. \<open>STORAGE_ROOT\<close> and \<open>ALLOW_DELETE\<close> are the
  module's constants of these names, read from the environment at start-up.
  \<open>cwd\<close> is \<open>process.cwd()\<close>, an absolute path. \<open>DATA_PATH\<close> is
  \<^verbatim>\<open>path.join(__dirname, "storage.json")\<close>, the absolute path of the ledger beside
  the server file. \<open>engine\<close> is the JavaScript engine. \<open>ledgerSize h\<close> is the
  number of bytes of \<^verbatim>\<open>JSON.stringify({ history: h }, null, 2)\<close>, the size of the
  ledger file once \<open>saveStore\<close> has written the history \<open>h\<close>.
\<close>

record config =
  STORAGE_ROOT :: string
  ALLOW_DELETE :: bool
  cwd :: string
  DATA_PATH :: string
  engine :: js_engine
  ledgerSize :: "history_entry list \<Rightarrow> nat"

section \<open>Walker (server)\<close>

text \<open>
  The body of \<^verbatim>\<open>for (const entry of entries)\<close> in \<open>scanRoot\<close>. The state is the
  work stack and the files emitted so far. \<open>stack.push\<close> and \<open>stack.pop\<close> work at
  the same end of the array; that end is the head of the list here. A stack entry
  is the directory's path together with the directory the path denotes.
\<close>

definition scanEntry ::
  "js_engine \<Rightarrow> string \<Rightarrow> string \<times> node \<Rightarrow> (string \<times> node) list \<times> file_rec list
     \<Rightarrow> (string \<times> node) list \<times> file_rec list" where
  "scanEntry eng current entry st =
     (case (entry, st) of ((nm, e), (stack, files)) \<Rightarrow>
        if isDirectory e then
          (if nm \<in> set IGNORED_DIRS then (stack, files)
           else ((path_join current nm, e) # stack, files))
        else if \<not> isFile e then (stack, files)
        else
          (let fullPath = path_join current nm
           in case stat_size e of
                None \<Rightarrow> (stack, files)
              | Some sz \<Rightarrow>
                  (stack,
                   files @ [\<lparr>path = fullPath, name = nm, fsize = sz,
                             category = categorizeFile eng fullPath\<rparr>])))"

definition scanEntries ::
  "js_engine \<Rightarrow> string \<Rightarrow> (string \<times> node) list \<Rightarrow> (string \<times> node) list \<times> file_rec list
     \<Rightarrow> (string \<times> node) list \<times> file_rec list" where
  "scanEntries eng current entries st = fold (scanEntry eng current) entries st"

text \<open>\<^verbatim>\<open>while (stack.length) { const current = stack.pop(); ... }\<close>\<close>

function scanLoop ::
  "js_engine \<Rightarrow> (string \<times> node) list \<Rightarrow> file_rec list \<Rightarrow> file_rec list" where
  "scanLoop eng [] files = files"
| "scanLoop eng ((current, n) # stack) files =
     (case readdir n of
        None \<Rightarrow> scanLoop eng stack files
      | Some entries \<Rightarrow>
          scanLoop eng (fst (scanEntries eng current entries (stack, files)))
                   (snd (scanEntries eng current entries (stack, files))))"
  by pat_completeness auto
termination
proof (relation "measure (\<lambda>(eng, stack, files). sum_list (map (\<lambda>(p, n). Suc (size n)) stack))")
  show "wf (measure (\<lambda>(eng :: js_engine, stack, files :: file_rec list).
      sum_list (map (\<lambda>(p :: string, n :: node). Suc (size n)) stack)))"
    by simp
next
  fix eng :: js_engine and current :: string and n :: node
    and stack :: "(string \<times> node) list" and files :: "file_rec list"
  assume "readdir n = None"
  then show "((eng, stack, files), eng, (current, n) # stack, files)
      \<in> measure (\<lambda>(eng, stack, files). sum_list (map (\<lambda>(p, n). Suc (size n)) stack))"
    by (cases n) simp_all
next
  fix eng :: js_engine and current :: string and n :: node
    and stack :: "(string \<times> node) list"
    and files :: "file_rec list" and entries :: "(string \<times> node) list"
  assume rd: "readdir n = Some entries"
  have step: "sum_list (map (\<lambda>(p, n). Suc (size n)) (fst (scanEntry eng cur en st)))
      \<le> sum_list (map (\<lambda>(p, n). Suc (size n)) (fst st)) + Suc (size (snd en))"
    for cur en st
    by (cases en; cases st) (simp add: scanEntry_def Let_def split: option.splits)
  have bound: "sum_list (map (\<lambda>(p, n). Suc (size n)) (fst (fold (scanEntry eng cur) es st)))
      \<le> sum_list (map (\<lambda>(p, n). Suc (size n)) (fst st))
          + sum_list (map (\<lambda>(p, n). Suc (size n)) es)"
    for cur es st
  proof (induction es arbitrary: st)
    case Nil
    show ?case by simp
  next
    case (Cons en es)
    from Cons[of "scanEntry eng cur en st"] step[of cur en st]
    show ?case by (cases en) simp
  qed
  from rd have n: "n = Dir entries" by (cases n) simp_all
  have "sum_list (map (\<lambda>(p, n). Suc (size n)) entries) < Suc (size n)"
    unfolding n by (induction entries) (auto)
  with bound[of current entries "(stack, files)"]
  show "((eng, fst (scanEntries eng current entries (stack, files)),
          snd (scanEntries eng current entries (stack, files))),
         eng, (current, n) # stack, files)
      \<in> measure (\<lambda>(eng, stack, files). sum_list (map (\<lambda>(p, n). Suc (size n)) stack))"
    by (simp add: scanEntries_def case_prod_beta)
qed

text \<open>
  \<open>scanRoot\<close>: walk from \<open>STORAGE_ROOT\<close>, mark duplicates, summarize. \<open>rootNode\<close> is
  what the file system holds at \<open>STORAGE_ROOT\<close>; \<open>now\<close> is the clock's reading.
\<close>

definition walkRoot :: "config \<Rightarrow> node \<Rightarrow> file_rec list" where
  "walkRoot cfg rootNode = scanLoop (engine cfg) [(STORAGE_ROOT cfg, rootNode)] []"

definition scanRoot :: "config \<Rightarrow> string \<Rightarrow> node \<Rightarrow> scan_snapshot" where
  "scanRoot cfg now rootNode = summarize now (markDuplicates (walkRoot cfg rootNode))"

section \<open>History ledger\<close>

text \<open>
  The persisted ledger: the server's \<open>storage.json\<close> and the client's
  \<open>AsyncStorage\<close> item. \<open>NoFile\<close>: nothing stored. \<open>Unparsable\<close>: \<open>JSON.parse\<close>
  throws. \<open>Parsed None\<close>: a document whose history is not an array.
  \<open>Parsed (Some h)\<close>: the stored array, taken to hold history entries.
\<close>

datatype store_file = NoFile | Unparsable | Parsed "history_entry list option"

definition loadStore :: "store_file \<Rightarrow> history_entry list" where
  "loadStore f =
     (case f of
        NoFile \<Rightarrow> []
      | Unparsable \<Rightarrow> []
      | Parsed None \<Rightarrow> []
      | Parsed (Some h) \<Rightarrow> h)"

definition saveStore :: "history_entry list \<Rightarrow> store_file" where
  "saveStore h = Parsed (Some h)"

text \<open>
  \<^verbatim>\<open>store.history.unshift(entry); store.history = store.history.slice(0, 10);\<close>
  and the client's \<^verbatim>\<open>[entry, ...history].slice(0, 10)\<close>.
\<close>

definition recordHistory :: "history_entry \<Rightarrow> history_entry list \<Rightarrow> history_entry list" where
  "recordHistory entry history = take 10 (entry # history)"

text \<open>
  The readings of the clock during one request, in the order in which the handler
  takes them: \<open>new Date()\<close> in the first \<open>scanRoot\<close>, \<open>new Date()\<close> in the second,
  \<open>Date.now()\<close> for the entry's id and \<open>new Date().toISOString()\<close> for its time.
  The client's \<open>runDeviceClean\<close> takes the last two.
\<close>

record clock =
  scanTime :: string
  rescanTime :: string
  nowMs :: nat
  nowIso :: string

definition cleanId :: "clock \<Rightarrow> string" where
  "cleanId clk = ''clean_'' @ numToString (nowMs clk)"

section \<open>Cleaner (server)\<close>

text \<open>
  \<^verbatim>\<open>
  const withinRoot = (filePath) => {
    const resolvedRoot = path.resolve(STORAGE_ROOT) + path.sep;
    const resolvedPath = path.resolve(filePath);
    return resolvedPath.startsWith(resolvedRoot);
  };
  \<close>
\<close>

definition withinRoot :: "config \<Rightarrow> string \<Rightarrow> bool" where
  "withinRoot cfg filePath =
     (let resolvedRoot = path_resolve (cwd cfg) (STORAGE_ROOT cfg) @ sep;
          resolvedPath = path_resolve (cwd cfg) filePath
      in startsWith resolvedPath resolvedRoot)"

text \<open>
  \<open>fs.promises.unlink(p)\<close> on the tree below the storage root: the regular file
  whose path resolves to the same absolute path as \<open>p\<close> is removed from its
  directory. \<open>None\<close> when \<open>unlink\<close> throws: no such file, or a file that cannot
  be removed.
\<close>

fun removable :: "node \<Rightarrow> bool" where
  "removable (File st u) = u"
| "removable n = False"

fun unlinkNode :: "string \<Rightarrow> string \<Rightarrow> string \<Rightarrow> node \<Rightarrow> node option"
  and unlinkIn ::
    "string \<Rightarrow> string \<Rightarrow> string \<Rightarrow> (string \<times> node) list \<Rightarrow> (string \<times> node) list option"
where
  "unlinkNode wd target p (Dir es) = map_option Dir (unlinkIn wd target p es)"
| "unlinkNode wd target p (File st u) = None"
| "unlinkNode wd target p DirUnreadable = None"
| "unlinkNode wd target p Other = None"
| "unlinkIn wd target current [] = None"
| "unlinkIn wd target current ((nm, e) # es) =
     (if path_resolve wd (path_join current nm) = target \<and> isFile e
      then (if removable e then Some es else None)
      else (case unlinkNode wd target (path_join current nm) e of
              Some e' \<Rightarrow> Some ((nm, e') # es)
            | None \<Rightarrow> map_option ((#) (nm, e)) (unlinkIn wd target current es)))"

definition unlink :: "config \<Rightarrow> node \<Rightarrow> string \<Rightarrow> node option" where
  "unlink cfg rootNode p =
     unlinkNode (cwd cfg) (path_resolve (cwd cfg) p) (STORAGE_ROOT cfg) rootNode"

text \<open>
  The state of the deletion batch: the two counters, the flag and the file system;
  and, as a record of the calls (not variables of the source), the paths handed to
  \<open>unlink\<close> so far and those among them that \<open>unlink\<close> removed.
\<close>

record batch =
  cleanedBytes :: nat
  cleanedFiles :: nat
  simulated :: bool
  fs_after :: node
  unlinkCalls :: "string list"
  unlinked :: "string list"

text \<open>
  \<^verbatim>\<open>
  for (const file of filesToClean) {
    if (!withinRoot(file.path)) continue;
    try {
      await fs.promises.unlink(file.path);
      cleanedBytes += file.size;
      cleanedFiles += 1;
    } catch {
      continue;
    }
  }
  \<close>
\<close>

definition deleteStep :: "config \<Rightarrow> file_rec \<Rightarrow> batch \<Rightarrow> batch" where
  "deleteStep cfg file b =
     (if \<not> withinRoot cfg (path file) then b
      else (case unlink cfg (fs_after b) (path file) of
              Some fs' \<Rightarrow>
                b\<lparr>cleanedBytes := cleanedBytes b + fsize file,
                  cleanedFiles := cleanedFiles b + 1,
                  fs_after := fs',
                  unlinkCalls := unlinkCalls b @ [path file],
                  unlinked := unlinked b @ [path file]\<rparr>
            | None \<Rightarrow> b\<lparr>unlinkCalls := unlinkCalls b @ [path file]\<rparr>))"

text \<open>Lines 215 to 234 of the server file: the batch, in apply or in simulate mode.\<close>

definition cleanBatch :: "config \<Rightarrow> file_rec list \<Rightarrow> node \<Rightarrow> batch" where
  "cleanBatch cfg filesToClean rootNode =
     (if ALLOW_DELETE cfg
      then fold (deleteStep cfg) filesToClean
             \<lparr>cleanedBytes = 0, cleanedFiles = 0, simulated = False, fs_after = rootNode,
              unlinkCalls = [], unlinked = []\<rparr>
      else \<lparr>cleanedBytes = sumSizes filesToClean, cleanedFiles = length filesToClean,
            simulated = True, fs_after = rootNode, unlinkCalls = [], unlinked = []\<rparr>)"

text \<open>
  The request body. \<^verbatim>\<open>const { categories } = req.body || {};\<close> and
  \<^verbatim>\<open>Array.isArray(categories) ? new Set(categories) : new Set()\<close>: a missing body
  and a \<open>categories\<close> field that is missing or not an array both give the empty
  set. The elements of the array are taken to be strings.
\<close>

datatype req_categories = NotArray | IdArray "string list"

datatype req_body = NoBody | Body req_categories

text \<open>\<open>new Set(xs)\<close> keeps the first occurrence of each element, in insertion order.\<close>

definition setAdd :: "string \<Rightarrow> string list \<Rightarrow> string list" where
  "setAdd x s = (if x \<in> set s then s else s @ [x])"

definition newSet :: "string list \<Rightarrow> string list" where
  "newSet xs = fold setAdd xs []"

definition targetIdsOf :: "req_body \<Rightarrow> string list" where
  "targetIdsOf body =
     (case body of
        NoBody \<Rightarrow> []
      | Body NotArray \<Rightarrow> []
      | Body (IdArray ids) \<Rightarrow> newSet ids)"

text \<open>
  \<^verbatim>\<open>
  for (const id of targetIds) {
    const list = scan.categoryFiles[id] || [];
    filesToClean.push(...list);
  }
  \<close>
  \<open>categoryFiles\<close> is an object literal with the five category ids as its own
  properties. A property name that it inherits from \<open>Object.prototype\<close> reads as a
  function or an object, which is truthy and not iterable, so the spread throws a
  \<open>TypeError\<close>. Any other name reads as \<open>undefined\<close> and gives \<open>[]\<close>.
\<close>

datatype js_error = TypeError

definition categoryOfId :: "string \<Rightarrow> category option" where
  "categoryOfId i =
     (if i = ''cache'' then Some cache
      else if i = ''downloads'' then Some downloads
      else if i = ''duplicates'' then Some duplicates
      else if i = ''media'' then Some media
      else if i = ''logs'' then Some logs
      else None)"

definition OBJECT_PROTOTYPE_KEYS :: "string list" where
  "OBJECT_PROTOTYPE_KEYS =
     [''constructor'', ''__proto__'', ''hasOwnProperty'', ''isPrototypeOf'',
      ''propertyIsEnumerable'', ''toLocaleString'', ''toString'', ''valueOf'',
      ''__defineGetter__'', ''__defineSetter__'', ''__lookupGetter__'', ''__lookupSetter__'']"

fun collectFiles ::
  "(category \<Rightarrow> file_rec list) \<Rightarrow> string list \<Rightarrow> file_rec list \<Rightarrow> js_error + file_rec list" where
  "collectFiles cf [] filesToClean = Inr filesToClean"
| "collectFiles cf (i # ids) filesToClean =
     (case categoryOfId i of
        Some c \<Rightarrow> collectFiles cf ids (filesToClean @ cf c)
      | None \<Rightarrow>
          if i \<in> set OBJECT_PROTOTYPE_KEYS then Inl TypeError
          else collectFiles cf ids filesToClean)"

text \<open>
  The response of \<open>POST /api/clean\<close>: the fresh snapshot, the three figures of
  the batch and the ledger.
\<close>

record response =
  r_scan :: scan_snapshot
  r_cleanedMB :: nat
  r_cleanedFiles :: nat
  r_simulated :: bool
  r_history :: "history_entry list"

text \<open>
  The state outside the handler: the tree at \<open>STORAGE_ROOT\<close> and the content of
  the ledger \<open>storage.json\<close>, the file at \<open>DATA_PATH\<close>. With the default root
  (\<open>sample_storage\<close> beside the server file) the ledger lies outside the tree. With
  a root that contains the server's directory the ledger is a file of the tree as
  well: the scan lists it, the batch can unlink it, and \<open>saveStore\<close> changes its
  size. The tree then has a regular file at \<open>DATA_PATH\<close> exactly when \<open>storeFile\<close>
  is not \<open>NoFile\<close>. \<open>readFileSync\<close> and \<open>writeFileSync\<close> on the ledger are
  taken to succeed; the source does not handle their errors.
\<close>

record world =
  fsRoot :: node
  storeFile :: store_file

text \<open>
  \<open>loadStore()\<close> runs after the batch. It finds no ledger when the batch has
  unlinked the file at \<open>DATA_PATH\<close>: one of the removed paths resolves to it.
\<close>

definition ledgerUnlinked :: "config \<Rightarrow> batch \<Rightarrow> bool" where
  "ledgerUnlinked cfg b =
     (path_resolve (cwd cfg) (DATA_PATH cfg) \<in> set (map (path_resolve (cwd cfg)) (unlinked b)))"

definition storeAfterBatch :: "config \<Rightarrow> batch \<Rightarrow> store_file \<Rightarrow> store_file" where
  "storeAfterBatch cfg b store = (if ledgerUnlinked cfg b then NoFile else store)"

text \<open>
  \<open>fs.writeFileSync(DATA_PATH, ...)\<close> as the tree shows it. In the directory whose
  entry \<open>base\<close> resolves to \<open>target\<close>, a regular file of that name gets the new
  size; when the directory has no entry of that name, the file is created, and is
  listed last. Nothing else changes. A ledger outside the root is no part of the
  tree, and a ledger in a directory that the tree does not list leaves the tree as
  it is.
\<close>

fun putEntry :: "string \<Rightarrow> nat \<Rightarrow> (string \<times> node) list \<Rightarrow> (string \<times> node) list" where
  "putEntry base sz [] = [(base, File (Some sz) True)]"
| "putEntry base sz ((nm, e) # es) =
     (if nm = base
      then (nm, (case e of File st u \<Rightarrow> File (Some sz) u | Dir ds \<Rightarrow> e | DirUnreadable \<Rightarrow> e
                  | Other \<Rightarrow> e)) # es
      else (nm, e) # putEntry base sz es)"

fun writeNode :: "string \<Rightarrow> string \<Rightarrow> string \<Rightarrow> nat \<Rightarrow> string \<Rightarrow> node \<Rightarrow> node"
  and writeIn ::
    "string \<Rightarrow> string \<Rightarrow> string \<Rightarrow> nat \<Rightarrow> string \<Rightarrow> (string \<times> node) list
       \<Rightarrow> (string \<times> node) list"
where
  "writeNode wd target base sz p (Dir es) =
     (if path_resolve wd (path_join p base) = target then Dir (putEntry base sz es)
      else Dir (writeIn wd target base sz p es))"
| "writeNode wd target base sz p (File st u) = File st u"
| "writeNode wd target base sz p DirUnreadable = DirUnreadable"
| "writeNode wd target base sz p Other = Other"
| "writeIn wd target base sz current [] = []"
| "writeIn wd target base sz current ((nm, e) # es) =
     (nm, writeNode wd target base sz (path_join current nm) e)
       # writeIn wd target base sz current es"

definition writeLedger :: "config \<Rightarrow> node \<Rightarrow> nat \<Rightarrow> node" where
  "writeLedger cfg rootNode sz =
     (if withinRoot cfg (DATA_PATH cfg)
      then writeNode (cwd cfg) (path_resolve (cwd cfg) (DATA_PATH cfg))
             (basenamePart (path_resolve (cwd cfg) (DATA_PATH cfg))) sz (STORAGE_ROOT cfg) rootNode
      else rootNode)"

definition historyEntry :: "clock \<Rightarrow> batch \<Rightarrow> string list \<Rightarrow> history_entry" where
  "historyEntry clk b targetIds =
     \<lparr>e_id = cleanId clk, e_time = nowIso clk, e_cleanedMB = toMB (cleanedBytes b),
      e_cleanedFiles = cleanedFiles b, e_categories = targetIds, e_simulated = simulated b\<rparr>"

text \<open>
  The handler of \<open>POST /api/clean\<close>. A \<open>TypeError\<close> thrown while the candidates are
  collected leaves the handler before anything is deleted or written. Otherwise
  the batch runs, the root is scanned again, the ledger is loaded, extended and
  saved, in this order.
\<close>

definition clean :: "config \<Rightarrow> clock \<Rightarrow> req_body \<Rightarrow> world \<Rightarrow> (js_error + response) \<times> world" where
  "clean cfg clk body w =
     (let targetIds = targetIdsOf body;
          scan = scanRoot cfg (scanTime clk) (fsRoot w)
      in case collectFiles (categoryFiles scan) targetIds [] of
           Inl err \<Rightarrow> (Inl err, w)
         | Inr filesToClean \<Rightarrow>
             (let b = cleanBatch cfg filesToClean (fsRoot w);
                  updatedScan = scanRoot cfg (rescanTime clk) (fs_after b);
                  store = loadStore (storeAfterBatch cfg b (storeFile w));
                  history = recordHistory (historyEntry clk b targetIds) store
              in (Inr \<lparr>r_scan = updatedScan, r_cleanedMB = toMB (cleanedBytes b),
                       r_cleanedFiles = cleanedFiles b, r_simulated = simulated b,
                       r_history = history\<rparr>,
                  \<lparr>fsRoot = writeLedger cfg (fs_after b) (ledgerSize cfg history),
                   storeFile = saveStore history\<rparr>)))"


section \<open>The client: Storage Access Framework tree\<close>

text \<open>
  What \<open>FileSystem.getInfoAsync\<close>, \<open>StorageAccessFramework.readDirectoryAsync\<close>
  and \<open>FileSystem.deleteAsync\<close> see. A directory lists the URIs of its children.
  \<open>SafFile sz d\<close>: a file with \<open>info.size = sz\<close> (\<open>None\<close> for \<open>undefined\<close>),
  which \<open>deleteAsync\<close> removes iff \<open>d\<close>. \<open>SafDirUnreadable\<close>: a directory whose
  listing throws. \<open>SafInfoError\<close>: \<open>getInfoAsync\<close> throws. \<open>SafMissing\<close>:
  \<open>info.exists\<close> is false.
\<close>

datatype saf_node =
    SafFile "nat option" bool
  | SafDir "(string \<times> saf_node) list"
  | SafDirUnreadable
  | SafInfoError
  | SafMissing

definition MAX_SCAN_FILES :: nat where
  "MAX_SCAN_FILES = 1500"

text \<open>
  \<^verbatim>\<open>
  const scanSafTree = async (uri, files) => {
    if (files.length >= MAX_SCAN_FILES) return;
    let info;
    try { info = await FileSystem.getInfoAsync(uri); } catch { return; }
    if (!info.exists) return;
    if (info.isDirectory) {
      let children = [];
      try {
        children = await FileSystem.StorageAccessFramework.readDirectoryAsync(uri);
      } catch { return; }
      for (const child of children) {
        if (files.length >= MAX_SCAN_FILES) return;
        await scanSafTree(child, files);
      }
    } else {
      const name = guessNameFromUri(uri);
      const category = categorizeName(name, uri);
      files.push({ uri, name, size: info.size || 0, category });
    }
  };
  \<close>
  \<open>scanChildren\<close> is the \<open>for\<close> loop over \<open>children\<close>.
\<close>

fun scanSafTree ::
  "js_engine \<Rightarrow> string \<Rightarrow> saf_node \<Rightarrow> file_rec list \<Rightarrow> file_rec list"
  and scanChildren ::
  "js_engine \<Rightarrow> (string \<times> saf_node) list \<Rightarrow> file_rec list \<Rightarrow> file_rec list"
where
  "scanSafTree eng uri SafInfoError files = files"
| "scanSafTree eng uri SafMissing files = files"
| "scanSafTree eng uri SafDirUnreadable files = files"
| "scanSafTree eng uri (SafDir children) files =
     (if length files \<ge> MAX_SCAN_FILES then files else scanChildren eng children files)"
| "scanSafTree eng uri (SafFile sz d) files =
     (if length files \<ge> MAX_SCAN_FILES then files
      else files @
        [\<lparr>path = uri, name = guessNameFromUri eng uri,
          fsize = (case sz of None \<Rightarrow> 0 | Some s \<Rightarrow> s),
          category = categorizeName eng (guessNameFromUri eng uri) uri\<rparr>])"
| "scanChildren eng [] files = files"
| "scanChildren eng ((child, n) # cs) files =
     (if length files \<ge> MAX_SCAN_FILES then files
      else scanChildren eng cs (scanSafTree eng child n files))"

text \<open>
  \<open>scanDeviceStorage\<close>, as far as the scan goes: the files, the flag passed to
  \<open>setScanLimitReached\<close>, the summary and the note shown to the user.
\<close>

record device_scan =
  ds_files :: "file_rec list"
  ds_limitReached :: bool
  ds_summary :: client_summary
  ds_scanNote :: string

definition scanDeviceStorage ::
  "js_engine \<Rightarrow> string \<Rightarrow> saf_node \<Rightarrow> device_scan" where
  "scanDeviceStorage eng uri tree =
     (let files = scanSafTree eng uri tree [];
          limitReached = (length files \<ge> MAX_SCAN_FILES)
      in \<lparr>ds_files = files, ds_limitReached = limitReached,
          ds_summary = buildCategories files,
          ds_scanNote = (if limitReached then ''Scan limited to 1500 files.''
                         else ''Scan complete.'')\<rparr>)"

section \<open>The client: cleaning\<close>

text \<open>
  \<open>FileSystem.deleteAsync(uri, { idempotent: true })\<close>: the first node listed under
  \<open>uri\<close> is removed; a URI that is not there is no error. \<open>Refused\<close> is a throw.
\<close>

datatype del_result = Deleted | NotThere | Refused

fun safDeletable :: "saf_node \<Rightarrow> bool" where
  "safDeletable (SafFile sz d) = d"
| "safDeletable n = False"

fun deleteNode :: "string \<Rightarrow> saf_node \<Rightarrow> del_result \<times> saf_node"
  and deleteIn :: "string \<Rightarrow> (string \<times> saf_node) list \<Rightarrow> del_result \<times> (string \<times> saf_node) list"
where
  "deleteNode target (SafDir children) =
     (case deleteIn target children of (r, children') \<Rightarrow> (r, SafDir children'))"
| "deleteNode target (SafFile sz d) = (NotThere, SafFile sz d)"
| "deleteNode target SafDirUnreadable = (NotThere, SafDirUnreadable)"
| "deleteNode target SafInfoError = (NotThere, SafInfoError)"
| "deleteNode target SafMissing = (NotThere, SafMissing)"
| "deleteIn target [] = (NotThere, [])"
| "deleteIn target ((child, n) # cs) =
     (if child = target
      then (if safDeletable n then (Deleted, cs) else (Refused, (child, n) # cs))
      else (case deleteNode target n of
              (NotThere, n') \<Rightarrow>
                (case deleteIn target cs of (r, cs') \<Rightarrow> (r, (child, n) # cs'))
            | (r, n') \<Rightarrow> (r, (child, n') # cs)))"

definition deleteAsync :: "string \<Rightarrow> string \<Rightarrow> saf_node \<Rightarrow> del_result \<times> saf_node" where
  "deleteAsync rootUri target tree =
     (if rootUri = target
      then (if safDeletable tree then (Deleted, SafMissing) else (Refused, tree))
      else deleteNode target tree)"

record device_batch =
  d_cleanedBytes :: nat
  d_cleanedFiles :: nat
  d_tree :: saf_node
  d_deleteCalls :: "string list"

text \<open>
  \<^verbatim>\<open>
  for (const file of targetFiles) {
    try {
      await FileSystem.deleteAsync(file.uri, { idempotent: true });
      cleanedBytes += file.size;
      cleanedFiles += 1;
    } catch {
      continue;
    }
  }
  \<close>
\<close>

definition deviceDeleteStep :: "string \<Rightarrow> file_rec \<Rightarrow> device_batch \<Rightarrow> device_batch" where
  "deviceDeleteStep rootUri file b =
     (case deleteAsync rootUri (path file) (d_tree b) of
        (Refused, t) \<Rightarrow> b\<lparr>d_deleteCalls := d_deleteCalls b @ [path file]\<rparr>
      | (r, t) \<Rightarrow>
          b\<lparr>d_cleanedBytes := d_cleanedBytes b + fsize file,
            d_cleanedFiles := d_cleanedFiles b + 1,
            d_tree := t,
            d_deleteCalls := d_deleteCalls b @ [path file]\<rparr>)"

definition deviceDeleteLoop :: "string \<Rightarrow> file_rec list \<Rightarrow> saf_node \<Rightarrow> device_batch" where
  "deviceDeleteLoop rootUri targetFiles tree =
     fold (deviceDeleteStep rootUri) targetFiles
       \<lparr>d_cleanedBytes = 0, d_cleanedFiles = 0, d_tree = tree, d_deleteCalls = []\<rparr>"

text \<open>
  \<^verbatim>\<open>
  for (const id of selectedIds) {
    targetFiles.push(...summary.categories[id]);
  }
  \<close>
  Here an id that is not one of the five reads as \<open>undefined\<close> or as an inherited
  property; the spread throws either way.
\<close>

fun collectTargets ::
  "(category \<Rightarrow> file_rec list) \<Rightarrow> string list \<Rightarrow> file_rec list \<Rightarrow> js_error + file_rec list" where
  "collectTargets cats [] targetFiles = Inr targetFiles"
| "collectTargets cats (i # ids) targetFiles =
     (case categoryOfId i of
        Some c \<Rightarrow> collectTargets cats ids (targetFiles @ cats c)
      | None \<Rightarrow> Inl TypeError)"

text \<open>
  The client's state outside \<open>runDeviceClean\<close>: the tree, the stored ledger, and
  whether \<open>AsyncStorage.setItem\<close> succeeds (\<open>saveLocalHistory\<close> swallows its
  failure).
\<close>

record device_world =
  saf :: saf_node
  localStore :: store_file
  setItemOk :: bool

record device_result =
  dr_summary :: client_summary
  dr_cleanedBytes :: nat
  dr_cleanedFiles :: nat
  dr_entry :: history_entry
  dr_history :: "history_entry list"
  dr_deleteCalls :: "string list"

datatype device_outcome = NotStarted | CleanupFailed | Cleaned device_result

text \<open>
  \<open>runDeviceClean\<close>. \<open>directoryUri\<close> is \<open>None\<close> for \<open>null\<close> (the empty string
  is falsy as well); \<open>hasData\<close> says whether \<open>data\<close> is set. The \<open>catch\<close> of
  the outer \<open>try\<close> gives \<open>CleanupFailed\<close>.
\<close>

definition runDeviceClean ::
  "js_engine \<Rightarrow> clock \<Rightarrow> string option \<Rightarrow> bool \<Rightarrow> string list
     \<Rightarrow> device_world \<Rightarrow> device_outcome \<times> device_world" where
  "runDeviceClean eng clk directoryUri hasData selectedIds w =
     (case directoryUri of
        None \<Rightarrow> (NotStarted, w)
      | Some uri \<Rightarrow>
          if uri = [] \<or> \<not> hasData then (NotStarted, w)
          else
            (let files = scanSafTree eng uri (saf w) [];
                 summary = buildCategories files
             in case collectTargets (ccategories summary) selectedIds [] of
                  Inl err \<Rightarrow> (CleanupFailed, w)
                | Inr targetFiles \<Rightarrow>
                    (let b = deviceDeleteLoop uri targetFiles (saf w);
                         updatedFiles = scanSafTree eng uri (d_tree b) [];
                         updatedSummary = buildCategories updatedFiles;
                         history = loadStore (localStore w);
                         entry = \<lparr>e_id = cleanId clk, e_time = nowIso clk,
                                  e_cleanedMB = roundMB (d_cleanedBytes b),
                                  e_cleanedFiles = d_cleanedFiles b,
                                  e_categories = selectedIds, e_simulated = False\<rparr>;
                         nextHistory = recordHistory entry history
                     in (Cleaned \<lparr>dr_summary = updatedSummary,
                                  dr_cleanedBytes = d_cleanedBytes b,
                                  dr_cleanedFiles = d_cleanedFiles b,
                                  dr_entry = entry,
                                  dr_history = nextHistory,
                                  dr_deleteCalls = d_deleteCalls b\<rparr>,
                         w\<lparr>saf := d_tree b,
                           localStore := (if setItemOk w then saveStore nextHistory
                                          else localStore w)\<rparr>))))"


section \<open>Auxiliary notions for the proofs\<close>

text \<open>The duplicate map after the first \<open>n\<close> files, for a key function on indices.\<close>

definition dm_fold :: "(nat \<Rightarrow> string) \<Rightarrow> nat \<Rightarrow> dupmap" where
  "dm_fold key n = fold (\<lambda>i m. dm_push (key i) i m) [0..<n] []"

text \<open>A record reassigned to \<open>duplicates\<close>.\<close>

definition asDuplicate :: "file_rec \<Rightarrow> file_rec" where
  "asDuplicate f = f\<lparr>category := Some duplicates\<rparr>"


text \<open>The fixed order of the five category ids in a snapshot.\<close>

definition categoryOrder :: "category list" where
  "categoryOrder = [cache, downloads, duplicates, media, logs]"

text \<open>The files of a list whose category is \<open>c\<close>, and their total size in bytes.\<close>

definition filesIn :: "category \<Rightarrow> file_rec list \<Rightarrow> file_rec list" where
  "filesIn c files = filter (\<lambda>f. category f = Some c) files"

definition bytesIn :: "category \<Rightarrow> file_rec list \<Rightarrow> nat" where
  "bytesIn c files = sum_list (map fsize (filesIn c files))"


text \<open>Three files, two of them with the same name and size.\<close>

definition exampleFiles :: "file_rec list" where
  "exampleFiles =
     [\<lparr>path = ''/data/a/c.mp4'', name = ''c.mp4'', fsize = 7, category = Some media\<rparr>,
      \<lparr>path = ''/data/b.txt'', name = ''b.txt'', fsize = 7, category = None\<rparr>,
      \<lparr>path = ''/data/cache/c.mp4'', name = ''c.mp4'', fsize = 7, category = Some cache\<rparr>]"

text \<open>
  The tree with every directory whose name is in \<open>IGNORED_DIRS\<close> removed, at any
  depth below the root.
\<close>

fun prune :: "node \<Rightarrow> node" and pruneEntries :: "(string \<times> node) list \<Rightarrow> (string \<times> node) list" where
  "prune (Dir es) = Dir (pruneEntries es)"
| "prune (File st u) = File st u"
| "prune DirUnreadable = DirUnreadable"
| "prune Other = Other"
| "pruneEntries [] = []"
| "pruneEntries ((nm, e) # es) =
     (if isDirectory e \<and> nm \<in> set IGNORED_DIRS then pruneEntries es
      else (nm, prune e) # pruneEntries es)"

text \<open>A directory that holds \<open>n\<close> empty regular files and nothing else.\<close>

definition flatDir :: "nat \<Rightarrow> node" where
  "flatDir n = Dir (map (\<lambda>i. (numToString i, File (Some 0) True)) [0..<n])"

text \<open>
  All the files of a Storage Access Framework tree, in depth-first order of the
  listings, with no bound on their number: the record that \<open>scanSafTree\<close> builds
  for each.
\<close>

fun safFiles :: "js_engine \<Rightarrow> string \<Rightarrow> saf_node \<Rightarrow> file_rec list"
  and safFilesIn :: "js_engine \<Rightarrow> (string \<times> saf_node) list \<Rightarrow> file_rec list"
where
  "safFiles eng uri (SafFile sz d) =
     [\<lparr>path = uri, name = guessNameFromUri eng uri,
       fsize = (case sz of None \<Rightarrow> 0 | Some s \<Rightarrow> s),
       category = categorizeName eng (guessNameFromUri eng uri) uri\<rparr>]"
| "safFiles eng uri (SafDir children) = safFilesIn eng children"
| "safFiles eng uri SafDirUnreadable = []"
| "safFiles eng uri SafInfoError = []"
| "safFiles eng uri SafMissing = []"
| "safFilesIn eng [] = []"
| "safFilesIn eng ((child, n) # cs) = safFiles eng child n @ safFilesIn eng cs"

text \<open>The end-to-end scenario: a configuration and two listings of the same root.\<close>

text \<open>
  A size for the ledger file: 19 bytes for the empty ledger and 200 for each entry.
  The concrete scenarios use it; the general theorems hold for every size.
\<close>

definition sampleLedgerSize :: "history_entry list \<Rightarrow> nat" where
  "sampleLedgerSize h = 19 + 200 * length h"

definition scenarioCfg :: config where
  "scenarioCfg =
     \<lparr>STORAGE_ROOT = ''/data'', ALLOW_DELETE = False, cwd = ''/srv'',
      DATA_PATH = ''/srv/storage.json'', engine = asciiEngine, ledgerSize = sampleLedgerSize\<rparr>"

definition scenarioTree :: node where
  "scenarioTree =
     Dir [(''a.log'', File (Some (10 * 1048576)) True),
          (''b.mp4'', File (Some (50 * 1048576)) True),
          (''c.mp4'', File (Some (50 * 1048576)) True),
          (''d'', Dir [(''c.mp4'', File (Some (50 * 1048576)) True)])]"

definition scenarioTree' :: node where
  "scenarioTree' =
     Dir [(''d'', Dir [(''c.mp4'', File (Some (50 * 1048576)) True)]),
          (''logs'', Dir [(''a.log'', File (Some (10 * 1048576)) True)]),
          (''c.mp4'', File (Some (50 * 1048576)) True),
          (''b.mp4'', File (Some (50 * 1048576)) True)]"

text \<open>A root that holds ignored directories only, one with a file in it.\<close>

definition ignoredOnlyTree :: node where
  "ignoredOnlyTree =
     Dir [(''node_modules'', Dir [(''x.log'', File (Some 5) True)]),
          (''.git'', DirUnreadable),
          (''.expo'', Dir [])]"

text \<open>The same for the client: a folder that holds a \<open>node_modules\<close> directory only.\<close>

definition safIgnoredOnlyTree :: saf_node where
  "safIgnoredOnlyTree =
     SafDir [(''content://tree/root/node_modules'',
              SafDir [(''content://tree/root/node_modules/x.log'', SafFile (Some 5) True)])]"

section \<open>The categorization rules, as stated\<close>










text \<open>
  Lower-casing leaves the last dot of the name where it is. It does so for every
  ASCII name; it does not when a character before the dot changes its length.
\<close>

definition keepsLastDot :: "js_engine \<Rightarrow> string \<Rightarrow> bool" where
  "keepsLastDot eng nm =
     (lastIndexOf (CHR ''.'') (toLowerCase eng nm) = lastIndexOf (CHR ''.'') nm)"

text \<open>
  An engine whose \<open>toLowerCase\<close> turns one code unit into two, as JavaScript's
  turns \<open>U+0130\<close> into \<open>U+0069 U+0307\<close>. The code unit \<open>0xDD\<close> stands in for
  \<open>U+0130\<close> and \<open>0xCC\<close> for \<open>U+0307\<close>; on every other code unit the engine is
  \<open>asciiEngine\<close>.
\<close>

definition lengtheningEngine :: js_engine where
  "lengtheningEngine =
     \<lparr>toLowerCase =
        (\<lambda>s. concat (map (\<lambda>c. if c = CHR 0xDD then [CHR ''i'', CHR 0xCC] else [toLowerChar c]) s)),
      decodeURIComponent = Some\<rparr>"

section \<open>Concrete inputs for the cleaner\<close>


definition applyCfg :: config where
  "applyCfg =
     \<lparr>STORAGE_ROOT = ''/root'', ALLOW_DELETE = True, cwd = ''/srv'',
      DATA_PATH = ''/srv/storage.json'', engine = asciiEngine, ledgerSize = sampleLedgerSize\<rparr>"

text \<open>
  A tree below \<open>/root\<close>, and three candidates: one inside the root, one in the
  sibling directory \<open>/root2\<close>, one that leaves the root through \<open>..\<close>.
\<close>

definition applyTree :: node where
  "applyTree = Dir [(''x.log'', File (Some 5) True), (''y.log'', File (Some 7) True)]"

definition applyCandidates :: "file_rec list" where
  "applyCandidates =
     [\<lparr>path = ''/root2/x.log'', name = ''x.log'', fsize = 3, category = Some logs\<rparr>,
      \<lparr>path = ''/root/x.log'', name = ''x.log'', fsize = 5, category = Some logs\<rparr>,
      \<lparr>path = ''/root/../etc/passwd'', name = ''passwd'', fsize = 9, category = None\<rparr>]"

text \<open>
  A client folder whose listing returns a document outside the folder's own URI.
\<close>

definition strayWorld :: device_world where
  "strayWorld =
     \<lparr>saf = SafDir [(''content://tree/root2/x.log'', SafFile (Some 5) True)],
      localStore = NoFile, setItemOk = True\<rparr>"

definition clockAt :: "nat \<Rightarrow> clock" where
  "clockAt ms =
     \<lparr>scanTime = ''2024-01-01T00:00:00.000Z'', rescanTime = ''2024-01-01T00:00:00.001Z'',
      nowMs = ms, nowIso = ''2024-01-01T00:00:00.002Z''\<rparr>"




text \<open>
  The server installed in \<open>/home/u/downloads/app\<close>, started in apply mode with
  \<open>/home/u/downloads\<close> as the storage root: the ledger is a file of the tree and
  falls in the category \<open>downloads\<close>. The ledger holds one earlier entry.
\<close>

definition downloadsCfg :: config where
  "downloadsCfg =
     \<lparr>STORAGE_ROOT = ''/home/u/downloads'', ALLOW_DELETE = True,
      cwd = ''/home/u/downloads/app'', DATA_PATH = ''/home/u/downloads/app/storage.json'',
      engine = asciiEngine, ledgerSize = sampleLedgerSize\<rparr>"

definition earlierEntry :: history_entry where
  "earlierEntry =
     \<lparr>e_id = ''clean_5'', e_time = ''2023-12-31T00:00:00.000Z'', e_cleanedMB = 0,
      e_cleanedFiles = 0, e_categories = [], e_simulated = False\<rparr>"

definition downloadsWorld :: world where
  "downloadsWorld =
     \<lparr>fsRoot = Dir [(''app'', Dir [(''storage.json'', File (Some 219) True)]),
                    (''old.iso'', File (Some 1048576) True)],
      storeFile = Parsed (Some [earlierEntry])\<rparr>"




text \<open>Two files of half a megabyte each, in two categories.\<close>

definition halfMegabyteFiles :: "file_rec list" where
  "halfMegabyteFiles =
     [\<lparr>path = ''/data/cache/a.bin'', name = ''a.bin'', fsize = 524288, category = Some cache\<rparr>,
      \<lparr>path = ''/data/b.log'', name = ''b.log'', fsize = 524288, category = Some logs\<rparr>]"

section \<open>Properties\<close>

section \<open>Summarizer arithmetic\<close>

lemma round_MB: "round (real b / 1048576) = int ((2 * b + 1048576) div 2097152)"
proof -
  have "real b / 1048576 + 1 / 2 = (real (2 * b + 1048576)) / real (2 * 1048576)"
    by (simp add: field_simps)
  then have "round (real b / 1048576) = \<lfloor>(real (2 * b + 1048576)) / real (2 * 1048576)\<rfloor>"
    unfolding round_def by presburger
  also have "\<dots> = int ((2 * b + 1048576) div (2 * 1048576))"
    by (simp only: floor_divide_of_nat_eq)
  finally show ?thesis by simp
qed

lemma toMB_div: "toMB b = (2 * b + 1048576) div 2097152"
  by (simp add: toMB_def MB_def round_MB)

lemma toMB_round: "int (toMB b) = max 0 (round (real b / 1048576))"
  by (simp add: toMB_def MB_def round_MB)

lemma roundMB_toMB: "roundMB b = toMB b"
  by (simp add: roundMB_def toMB_div round_MB)

lemma sumSizes_sum_list: "sumSizes fs = sum_list (map fsize fs)"
proof -
  have "fold (\<lambda>f s. s + fsize f) fs a = a + sum_list (map fsize fs)" for a
    by (induction fs arbitrary: a) auto
  then show ?thesis by (simp add: sumSizes_def)
qed

lemma fold_pushCategory:
  "fold pushCategory fs cf c = cf c @ filter (\<lambda>f. category f = Some c) fs"
  by (induction fs arbitrary: cf) (auto simp: pushCategory_def split: option.splits)

lemma buildCategoryFiles_filesIn: "buildCategoryFiles fs c = filesIn c fs"
  by (simp add: buildCategoryFiles_def fold_pushCategory filesIn_def)

lemma sumSizes_categoryFiles: "sumSizes (buildCategoryFiles fs c) = bytesIn c fs"
  by (simp add: sumSizes_sum_list buildCategoryFiles_filesIn bytesIn_def)

lemma summarize_categories:
  "map cid (categories (summarize now fs)) = categoryOrder"
  "map sizeMB (categories (summarize now fs)) = map (\<lambda>c. toMB (bytesIn c fs)) categoryOrder"
  by (simp_all add: summarize_def Let_def categoryOrder_def sumSizes_categoryFiles)

lemma summarize_totals:
  "totalUsedMB (summarize now fs) = toMB (sum_list (map fsize fs))"
  "totalReclaimableMB (summarize now fs) = sum_list (map sizeMB (categories (summarize now fs)))"
  by (simp_all add: summarize_def Let_def sumSizes_sum_list)

lemma summarize_categoryFiles: "categoryFiles (summarize now fs) c = filesIn c fs"
  by (simp add: summarize_def Let_def buildCategoryFiles_filesIn)

lemma buildCategories_list:
  "map cid (clist (buildCategories fs)) = categoryOrder"
  "map sizeMB (clist (buildCategories fs))
     = map (\<lambda>c. toMB (bytesIn c (markDuplicates fs))) categoryOrder"
  by (simp_all add: buildCategories_def Let_def categoryOrder_def sumSizes_categoryFiles
        roundMB_toMB)

lemma buildCategories_totals:
  "ctotalUsedMB (buildCategories fs) = toMB (sum_list (map fsize (markDuplicates fs)))"
  "ctotalReclaimableMB (buildCategories fs) = sum_list (map sizeMB (clist (buildCategories fs)))"
  by (simp_all add: buildCategories_def Let_def sumSizes_sum_list roundMB_toMB)

section \<open>The composite key\<close>

lemma split_at_char:
  assumes "c \<notin> set da" "c \<notin> set db" "a @ c # da = b @ c # db"
  shows "a = b \<and> da = db"
  using assms
proof (induction a arbitrary: b)
  case Nil
  then show ?case by (cases b) auto
next
  case (Cons x a)
  then show ?case by (cases b) auto
qed

lemma digitChar_inj: "a < 10 \<Longrightarrow> b < 10 \<Longrightarrow> digitChar a = digitChar b \<Longrightarrow> a = b"
proof -
  assume a: "a < 10" and b: "b < 10" and e: "digitChar a = digitChar b"
  from e have "(of_char (digitChar a) :: nat) = of_char (digitChar b)" by simp
  with a b show "a = b" by (simp add: digitChar_def)
qed

lemma digitChar_not_colon: "d < 10 \<Longrightarrow> digitChar d \<noteq> CHR '':''"
proof
  assume d: "d < 10" and e: "digitChar d = CHR '':''"
  from e have "(of_char (digitChar d) :: nat) = of_char (CHR '':'')" by simp
  with d show False by (simp add: digitChar_def)
qed

lemma numToString_no_colon: "CHR '':'' \<notin> set (numToString n)"
proof (induction n rule: numToString.induct)
  case (1 n)
  show ?case
  proof (cases "n < 10")
    case True
    then show ?thesis using digitChar_not_colon[of n] by (subst numToString.simps) auto
  next
    case False
    have "n mod 10 < 10" by simp
    then have "digitChar (n mod 10) \<noteq> CHR '':''" by (rule digitChar_not_colon)
    with False 1 show ?thesis by (subst numToString.simps) auto
  qed
qed

lemma numToString_nonempty: "numToString n \<noteq> []"
  by (subst numToString.simps) simp

lemma numToString_inj: "numToString n = numToString m \<Longrightarrow> n = m"
proof (induction n arbitrary: m rule: numToString.induct)
  case (1 n)
  show ?case
  proof (cases "n < 10")
    case n: True
    show ?thesis
    proof (cases "m < 10")
      case True
      with n "1.prems" show ?thesis
        by (simp add: numToString.simps[of n] numToString.simps[of m] digitChar_inj)
    next
      case False
      with n "1.prems" numToString_nonempty[of "m div 10"] show ?thesis
        by (simp add: numToString.simps[of n] numToString.simps[of m])
    qed
  next
    case n: False
    show ?thesis
    proof (cases "m < 10")
      case True
      with n "1.prems" numToString_nonempty[of "n div 10"] show ?thesis
        by (simp add: numToString.simps[of n] numToString.simps[of m])
    next
      case False
      with n "1.prems" have e: "numToString (n div 10) = numToString (m div 10)"
        and d: "digitChar (n mod 10) = digitChar (m mod 10)"
        by (simp_all add: numToString.simps[of n] numToString.simps[of m])
      from "1.IH"[OF n e] have "n div 10 = m div 10" .
      moreover from d have "n mod 10 = m mod 10" by (intro digitChar_inj) simp_all
      ultimately show ?thesis by (metis div_mult_mod_eq)
    qed
  qed
qed

lemma fileKey_eq_iff: "fileKey f = fileKey g \<longleftrightarrow> name f = name g \<and> fsize f = fsize g"
proof
  assume "fileKey f = fileKey g"
  then have "name f @ CHR '':'' # numToString (fsize f) = name g @ CHR '':'' # numToString (fsize g)"
    by (simp add: fileKey_def)
  from split_at_char[OF numToString_no_colon numToString_no_colon this]
  show "name f = name g \<and> fsize f = fsize g" by (auto dest: numToString_inj)
qed (simp add: fileKey_def)

section \<open>The duplicate map\<close>

lemma dm_push_keys:
  "map fst (dm_push k i m) = (if k \<in> fst ` set m then map fst m else map fst m @ [k])"
  by (induction m) (force simp: image_iff)+

lemma dm_push_map_of:
  "map_of (dm_push k i m) =
     (map_of m)(k \<mapsto> (case map_of m k of None \<Rightarrow> [i] | Some g \<Rightarrow> g @ [i]))"
  by (induction m) (auto simp: fun_eq_iff)

lemma dm_fold_Suc: "dm_fold key (Suc n) = dm_push (key n) n (dm_fold key n)"
  by (simp add: dm_fold_def)

lemma dm_fold_distinct: "distinct (map fst (dm_fold key n))"
proof (induction n)
  case 0 show ?case by (simp add: dm_fold_def)
next
  case (Suc n) then show ?case by (auto simp: dm_fold_Suc dm_push_keys)
qed

lemma dm_fold_map_of:
  "map_of (dm_fold key n) k =
     (if \<exists>i<n. key i = k then Some (filter (\<lambda>i. key i = k) [0..<n]) else None)"
proof (induction n)
  case 0 show ?case by (simp add: dm_fold_def)
next
  case (Suc n)
  show ?case
  proof (cases "key n = k")
    case True
    have nil: "\<not> (\<exists>i<n. key i = k) \<Longrightarrow> filter (\<lambda>i. key i = k) [0..<n] = []"
      by (auto simp: filter_empty_conv)
    from True Suc nil show ?thesis
      by (auto simp: dm_fold_Suc dm_push_map_of)
  next
    case False
    with Suc show ?thesis
      by (auto simp: dm_fold_Suc dm_push_map_of less_Suc_eq)
  qed
qed

lemma dm_fold_groups:
  "(k, g) \<in> set (dm_fold key n)
     \<longleftrightarrow> (\<exists>i<n. key i = k) \<and> g = filter (\<lambda>i. key i = k) [0..<n]"
proof -
  have "(k, g) \<in> set (dm_fold key n) \<longleftrightarrow> map_of (dm_fold key n) k = Some g"
    using map_of_eq_Some_iff[OF dm_fold_distinct] by metis
  then show ?thesis by (auto simp: dm_fold_map_of)
qed

section \<open>Marking\<close>

lemma asDuplicate_idem: "asDuplicate (asDuplicate f) = asDuplicate f"
  by (simp add: asDuplicate_def)

lemma setDuplicate_nth:
  "i < length fs \<Longrightarrow>
   setDuplicate j fs ! i = (if i = j then asDuplicate (fs ! i) else fs ! i)"
  by (cases "i = j") (auto simp: setDuplicate_def asDuplicate_def)

lemma fold_setDuplicate_length: "length (fold setDuplicate js fs) = length fs"
  by (induction js arbitrary: fs) (auto simp: setDuplicate_def)

lemma fold_setDuplicate_nth:
  "i < length fs \<Longrightarrow>
   fold setDuplicate js fs ! i = (if i \<in> set js then asDuplicate (fs ! i) else fs ! i)"
proof (induction js arbitrary: fs)
  case Nil show ?case by simp
next
  case (Cons j js)
  have len: "i < length (setDuplicate j fs)" using Cons.prems by (simp add: setDuplicate_def)
  show ?case using Cons.IH[OF len] Cons.prems
    by (auto simp: setDuplicate_nth asDuplicate_idem)
qed

lemma markGroup_fold: "markGroup g fs = fold setDuplicate (drop (Suc 0) g) fs"
  by (cases g) (auto simp: markGroup_def)

lemma fold_markGroup_length:
  "length (fold (\<lambda>(k, g) fs. markGroup g fs) m fs) = length fs"
  by (induction m arbitrary: fs) (auto simp: markGroup_fold fold_setDuplicate_length)

lemma fold_markGroup_nth:
  "i < length fs \<Longrightarrow>
   fold (\<lambda>(k, g) fs. markGroup g fs) m fs ! i =
     (if \<exists>(k, g) \<in> set m. i \<in> set (drop (Suc 0) g) then asDuplicate (fs ! i) else fs ! i)"
proof (induction m arbitrary: fs)
  case Nil show ?case by simp
next
  case (Cons kg m)
  obtain k g where kg: "kg = (k, g)" by (cases kg)
  have len: "i < length (markGroup g fs)"
    using Cons.prems by (simp add: markGroup_fold fold_setDuplicate_length)
  show ?case
    using Cons.IH[OF len] Cons.prems
    by (auto simp: kg markGroup_fold fold_setDuplicate_nth asDuplicate_idem)
qed

lemma in_tl_filter_upt:
  "i \<in> set (drop (Suc 0) (filter P [0..<n])) \<longleftrightarrow> i < n \<and> P i \<and> (\<exists>j<i. P j)"
proof -
  let ?xs = "filter P [0..<n]"
  have sd: "sorted ?xs" "distinct ?xs" by (simp_all add: sorted_wrt_filter)
  show ?thesis
  proof (cases ?xs)
    case Nil
    then show ?thesis by (auto simp: filter_empty_conv)
  next
    case (Cons x xs)
    then have xs: "set ?xs = insert x (set xs)" by (metis list.simps(15))
    then have x: "x \<in> set ?xs" by blast
    from sd Cons have xmin: "\<forall>y\<in>set xs. x < y" by (auto simp: less_le)
    from Cons have d: "drop (Suc 0) ?xs = xs" by simp
    show ?thesis unfolding d
    proof
      assume i: "i \<in> set xs"
      with xs have "i \<in> set ?xs" by blast
      then have "i < n" "P i" by simp_all
      moreover from x have "P x" by simp
      moreover from xmin i have "x < i" by blast
      ultimately show "i < n \<and> P i \<and> (\<exists>j<i. P j)" by blast
    next
      assume a: "i < n \<and> P i \<and> (\<exists>j<i. P j)"
      then obtain j where j: "j < i" "P j" by blast
      from a have "i \<in> set ?xs" by simp
      moreover have "i \<noteq> x"
      proof
        assume "i = x"
        from j a have "j \<in> set ?xs" by simp
        with xs have "j = x \<or> j \<in> set xs" by simp
        with xmin \<open>i = x\<close> j show False by auto
      qed
      ultimately show "i \<in> set xs" using xs by blast
    qed
  qed
qed

lemma markDuplicates_length: "length (markDuplicates fs) = length fs"
  by (simp add: markDuplicates_def fold_markGroup_length)

lemma markDuplicates_nth:
  assumes "i < length fs"
  shows "markDuplicates fs ! i =
     (if \<exists>j<i. fileKey (fs ! j) = fileKey (fs ! i) then asDuplicate (fs ! i) else fs ! i)"
proof -
  let ?key = "\<lambda>i. fileKey (fs ! i)"
  have m: "buildDuplicateMap fs = dm_fold ?key (length fs)"
    by (simp add: buildDuplicateMap_def dm_fold_def)
  have "(\<exists>(k, g) \<in> set (dm_fold ?key (length fs)). i \<in> set (drop (Suc 0) g))
        \<longleftrightarrow> (\<exists>j<i. ?key j = ?key i)"
  proof
    assume "\<exists>(k, g) \<in> set (dm_fold ?key (length fs)). i \<in> set (drop (Suc 0) g)"
    then obtain k g where "(k, g) \<in> set (dm_fold ?key (length fs))" "i \<in> set (drop (Suc 0) g)"
      by auto
    then show "\<exists>j<i. ?key j = ?key i"
      by (auto simp: dm_fold_groups in_tl_filter_upt)
  next
    assume "\<exists>j<i. ?key j = ?key i"
    then have "i \<in> set (drop (Suc 0) (filter (\<lambda>j. ?key j = ?key i) [0..<length fs]))"
      using assms by (simp add: in_tl_filter_upt)
    moreover have "(?key i, filter (\<lambda>j. ?key j = ?key i) [0..<length fs])
        \<in> set (dm_fold ?key (length fs))"
      using assms by (auto simp: dm_fold_groups)
    ultimately show "\<exists>(k, g) \<in> set (dm_fold ?key (length fs)). i \<in> set (drop (Suc 0) g)"
      by blast
  qed
  then show ?thesis
    using assms by (simp add: markDuplicates_def m fold_markGroup_nth)
qed

lemma markDuplicates_fsize: "map fsize (markDuplicates fs) = map fsize fs"
  by (rule nth_equalityI)
     (simp_all add: markDuplicates_length markDuplicates_nth asDuplicate_def)

section \<open>Claims about the deduplicator and the summarizer\<close>

text \<open>
  Claim C2. The deduplicator groups the files by name and size (the key
  \<open>name:size\<close> is injective on such pairs). A file is reassigned to \<open>duplicates\<close>,
  whatever its category was, exactly when an earlier file of the sequence has the same
  name and size; the first member of every group and the files of singleton groups are
  returned unchanged, and nothing but the category of a record changes. The category
  lists of the server's snapshot and of the client's summary are taken from the
  files so marked.
\<close>

theorem markDuplicates_first_wins:
  "length (markDuplicates files) = length files \<and>
   (\<forall>i<length files.
      markDuplicates files ! i =
        (if \<exists>j<i. name (files ! j) = name (files ! i) \<and> fsize (files ! j) = fsize (files ! i)
         then (files ! i)\<lparr>category := Some duplicates\<rparr>
         else files ! i)) \<and>
   categoryFiles (scanRoot cfg now t) c = filesIn c (markDuplicates (walkRoot cfg t)) \<and>
   ccategories (buildCategories files) c = filesIn c (markDuplicates files)"
  by (auto simp: markDuplicates_length markDuplicates_nth fileKey_eq_iff asDuplicate_def
      scanRoot_def summarize_categoryFiles buildCategories_def Let_def
      buildCategoryFiles_filesIn)

text \<open>The three files of \<open>exampleFiles\<close>: only the third is reassigned.\<close>

theorem markDuplicates_first_wins_witness:
  "markDuplicates exampleFiles ! 0 = exampleFiles ! 0 \<and>
   markDuplicates exampleFiles ! 1 = exampleFiles ! 1 \<and>
   markDuplicates exampleFiles ! 2 =
     \<lparr>path = ''/data/cache/c.mp4'', name = ''c.mp4'', fsize = 7,
      category = Some duplicates\<rparr>"
  using markDuplicates_first_wins[of exampleFiles scenarioCfg "''t''" Other cache]
  by (simp add: exampleFiles_def All_less_Suc Ex_less_Suc eval_nat_numeral)

text \<open>
  Claim C5. In every snapshot of the server and in every summary of the client,
  the reclaimable total is the sum of the five per-category \<open>sizeMB\<close> values, each
  of which is \<open>toMB\<close> of the bytes of the files whose final category is that id;
  the used total is \<open>toMB\<close> of the bytes of all walked files; and \<open>toMB\<close> is
  \<open>round(bytes / 1048576)\<close>, a half rounded upwards, clamped at 0. The sum of the
  rounded values is not the rounding of the sum: two files of half a megabyte in
  two categories give 2 MB reclaimable, while their bytes round to 1 MB.
\<close>

theorem snapshot_totals:
  "totalReclaimableMB (scanRoot cfg now t)
      = sum_list (map sizeMB (categories (scanRoot cfg now t))) \<and>
   map cid (categories (scanRoot cfg now t)) = [cache, downloads, duplicates, media, logs] \<and>
   map sizeMB (categories (scanRoot cfg now t))
      = map (\<lambda>c. toMB (bytesIn c (markDuplicates (walkRoot cfg t))))
          [cache, downloads, duplicates, media, logs] \<and>
   totalUsedMB (scanRoot cfg now t) = toMB (sum_list (map fsize (walkRoot cfg t))) \<and>
   ctotalReclaimableMB (buildCategories files)
      = sum_list (map sizeMB (clist (buildCategories files))) \<and>
   map cid (clist (buildCategories files)) = [cache, downloads, duplicates, media, logs] \<and>
   map sizeMB (clist (buildCategories files))
      = map (\<lambda>c. toMB (bytesIn c (markDuplicates files)))
          [cache, downloads, duplicates, media, logs] \<and>
   ctotalUsedMB (buildCategories files) = toMB (sum_list (map fsize files)) \<and>
   int (toMB b) = max 0 (round (real b / 1048576)) \<and>
   totalReclaimableMB (summarize now halfMegabyteFiles) = 2 \<and>
   toMB (sum_list (map fsize halfMegabyteFiles)) = 1"
proof -
  have half: "totalReclaimableMB (summarize now halfMegabyteFiles) = 2"
    "toMB (sum_list (map fsize halfMegabyteFiles)) = 1"
    by (simp_all add: halfMegabyteFiles_def summarize_def Let_def buildCategoryFiles_def
        pushCategory_def sumSizes_def toMB_div)
  have used: "toMB (sum_list (map fsize (markDuplicates fs))) = toMB (sum_list (map fsize fs))"
    for fs by (simp only: markDuplicates_fsize)
  have main: "totalReclaimableMB (scanRoot cfg now t)
      = sum_list (map sizeMB (categories (scanRoot cfg now t))) \<and>
   map cid (categories (scanRoot cfg now t)) = [cache, downloads, duplicates, media, logs] \<and>
   map sizeMB (categories (scanRoot cfg now t))
      = map (\<lambda>c. toMB (bytesIn c (markDuplicates (walkRoot cfg t))))
          [cache, downloads, duplicates, media, logs] \<and>
   totalUsedMB (scanRoot cfg now t) = toMB (sum_list (map fsize (walkRoot cfg t))) \<and>
   ctotalReclaimableMB (buildCategories files)
      = sum_list (map sizeMB (clist (buildCategories files))) \<and>
   map cid (clist (buildCategories files)) = [cache, downloads, duplicates, media, logs] \<and>
   map sizeMB (clist (buildCategories files))
      = map (\<lambda>c. toMB (bytesIn c (markDuplicates files)))
          [cache, downloads, duplicates, media, logs] \<and>
   ctotalUsedMB (buildCategories files) = toMB (sum_list (map fsize files)) \<and>
   int (toMB b) = max 0 (round (real b / 1048576))"
    unfolding scanRoot_def
    by (simp only: summarize_categories summarize_totals buildCategories_list
          buildCategories_totals used categoryOrder_def toMB_round simp_thms)
  from main half show ?thesis by blast
qed

section \<open>The walker and ignored directories\<close>

lemma prune_kind [simp]:
  "isDirectory (prune n) = isDirectory n"
  "isFile (prune n) = isFile n"
  "stat_size (prune n) = stat_size n"
  by (cases n; simp)+

lemma readdir_prune: "readdir (prune n) = map_option pruneEntries (readdir n)"
  by (cases n) simp_all

lemma scanEntries_Cons:
  "scanEntries eng cur (en # es) st = scanEntries eng cur es (scanEntry eng cur en st)"
  by (simp add: scanEntries_def)

lemma scanEntries_Nil: "scanEntries eng cur [] st = st"
  by (simp add: scanEntries_def)

lemma scanEntries_prune:
  "scanEntries eng cur (pruneEntries es) (map (\<lambda>(p, n). (p, prune n)) stack, files)
     = (map (\<lambda>(p, n). (p, prune n)) (fst (scanEntries eng cur es (stack, files))),
        snd (scanEntries eng cur es (stack, files)))"
proof (induction es arbitrary: stack files)
  case Nil
  show ?case by (simp add: scanEntries_Nil)
next
  case (Cons en es)
  obtain nm e where en: "en = (nm, e)" by (cases en)
  show ?case
  proof (cases "isDirectory e \<and> nm \<in> set IGNORED_DIRS")
    case True
    then have "scanEntry eng cur (nm, e) (stack, files) = (stack, files)"
      by (simp add: scanEntry_def)
    with True Cons[of stack files] show ?thesis
      by (simp add: en scanEntries_Cons)
  next
    case False
    obtain stack' files' where st: "scanEntry eng cur (nm, e) (stack, files) = (stack', files')"
      by (cases "scanEntry eng cur (nm, e) (stack, files)")
    have "scanEntry eng cur (nm, prune e) (map (\<lambda>(p, n). (p, prune n)) stack, files)
        = (map (\<lambda>(p, n). (p, prune n)) stack', files')"
      using st by (auto simp: scanEntry_def Let_def split: if_splits option.splits)
    moreover have "pruneEntries ((nm, e) # es) = (nm, prune e) # pruneEntries es"
      using False by simp
    ultimately show ?thesis
      using Cons[of stack' files'] st by (simp add: en scanEntries_Cons del: pruneEntries.simps)
  qed
qed

lemma scanLoop_prune:
  "scanLoop eng (map (\<lambda>(p, n). (p, prune n)) stack) files = scanLoop eng stack files"
proof (induction eng stack files rule: scanLoop.induct)
  case (1 eng files)
  show ?case by simp
next
  case (2 eng current n stack files)
  show ?case
  proof (cases "readdir n")
    case None
    with 2 show ?thesis by (simp add: readdir_prune)
  next
    case (Some entries)
    with 2(2)[OF Some] show ?thesis
      by (simp add: readdir_prune scanEntries_prune)
  qed
qed

lemma walkRoot_prune: "walkRoot cfg (prune t) = walkRoot cfg t"
  using scanLoop_prune[of "engine cfg" "[(STORAGE_ROOT cfg, t)]" "[]"] by (simp add: walkRoot_def)

lemma pruneEntries_all_ignored:
  "\<forall>(nm, e) \<in> set es. isDirectory e \<and> nm \<in> set IGNORED_DIRS \<Longrightarrow> pruneEntries es = []"
  by (induction es) auto

lemma walkRoot_empty_dir: "walkRoot cfg (Dir []) = []"
  by (simp add: walkRoot_def scanEntries_Nil)

section \<open>The client's walk and its cap\<close>

lemma scanSaf_take:
  "length files \<le> MAX_SCAN_FILES \<Longrightarrow>
     scanSafTree eng uri t files = take MAX_SCAN_FILES (files @ safFiles eng uri t)"
  "length files \<le> MAX_SCAN_FILES \<Longrightarrow>
     scanChildren eng cs files = take MAX_SCAN_FILES (files @ safFilesIn eng cs)"
proof (induction eng uri t files and eng cs files rule: scanSafTree_scanChildren.induct)
  case (7 eng child n cs files)
  show ?case
  proof (cases "length files \<ge> MAX_SCAN_FILES")
    case True
    with 7(3) show ?thesis by simp
  next
    case False
    then have a: "scanSafTree eng child n files
        = take MAX_SCAN_FILES (files @ safFiles eng child n)"
      using 7(1) 7(3) by simp
    have len: "length (scanSafTree eng child n files) \<le> MAX_SCAN_FILES"
      unfolding a by simp
    have "scanChildren eng cs (scanSafTree eng child n files)
        = take MAX_SCAN_FILES (scanSafTree eng child n files @ safFilesIn eng cs)"
      using 7(2)[OF False len] .
    also have "\<dots> = take MAX_SCAN_FILES (files @ safFiles eng child n @ safFilesIn eng cs)"
      unfolding a by (simp add: take_add min_def)
    finally show ?thesis using False by simp
  qed
qed (auto)

lemma scanSafTree_all:
  "scanSafTree eng uri t [] = take MAX_SCAN_FILES (safFiles eng uri t)"
  using scanSaf_take(1)[of "[]" eng uri t] by simp

section \<open>The server's walk has no cap\<close>

lemma scanEntries_files_only:
  "scanEntries eng cur (map (\<lambda>i. (f i, File (Some 0) True)) xs) (stack, files)
     = (stack, files @ map (\<lambda>i. \<lparr>path = path_join cur (f i), name = f i, fsize = 0,
                                    category = categorizeFile eng (path_join cur (f i))\<rparr>) xs)"
  by (induction xs arbitrary: files) (simp_all add: scanEntries_Nil scanEntries_Cons scanEntry_def Let_def)

lemma walkRoot_flatDir: "length (walkRoot cfg (flatDir n)) = n"
  by (simp add: walkRoot_def flatDir_def scanEntries_files_only)

section \<open>Evaluating the walk on concrete trees\<close>

lemmas path_eval = path_join_def path_normalize_def normalizeString_def isAbsolute_def
  path_resolve_def sep_def

lemmas categorize_eval = categorizeFile_def categorizeName_def asciiEngine_def asciiLower_def toLowerChar_def
  char_of_eq_iff sep_def path_extname_def basenamePart_def MEDIA_EXTS_def LOG_EXTS_def
  sliceFrom_def guessNameFromUri_def

lemmas walk_eval = walkRoot_def scanEntries_def scanEntry_def IGNORED_DIRS_def

lemmas dedup_eval = markDuplicates_def buildDuplicateMap_def fileKey_def numToString.simps
  digitChar_def char_of_eq_iff markGroup_def setDuplicate_def

lemmas summary_eval = summarize_def Let_def buildCategoryFiles_def pushCategory_def
  sumSizes_def toMB_div

lemma scenario_walk:
  "walkRoot scenarioCfg scenarioTree =
     [\<lparr>path = ''/data/a.log'', name = ''a.log'', fsize = 10485760, category = Some logs\<rparr>,
      \<lparr>path = ''/data/b.mp4'', name = ''b.mp4'', fsize = 52428800, category = Some media\<rparr>,
      \<lparr>path = ''/data/c.mp4'', name = ''c.mp4'', fsize = 52428800, category = Some media\<rparr>,
      \<lparr>path = ''/data/d/c.mp4'', name = ''c.mp4'', fsize = 52428800,
       category = Some media\<rparr>]"
  by (simp add: scenarioCfg_def scenarioTree_def walk_eval path_eval categorize_eval)

lemma scenario_walk':
  "walkRoot scenarioCfg scenarioTree' =
     [\<lparr>path = ''/data/c.mp4'', name = ''c.mp4'', fsize = 52428800, category = Some media\<rparr>,
      \<lparr>path = ''/data/b.mp4'', name = ''b.mp4'', fsize = 52428800, category = Some media\<rparr>,
      \<lparr>path = ''/data/logs/a.log'', name = ''a.log'', fsize = 10485760,
       category = Some logs\<rparr>,
      \<lparr>path = ''/data/d/c.mp4'', name = ''c.mp4'', fsize = 52428800,
       category = Some media\<rparr>]"
  by (simp add: scenarioCfg_def scenarioTree'_def walk_eval path_eval categorize_eval)

lemma scenario_dedup:
  "markDuplicates (walkRoot scenarioCfg scenarioTree) =
     [\<lparr>path = ''/data/a.log'', name = ''a.log'', fsize = 10485760, category = Some logs\<rparr>,
      \<lparr>path = ''/data/b.mp4'', name = ''b.mp4'', fsize = 52428800, category = Some media\<rparr>,
      \<lparr>path = ''/data/c.mp4'', name = ''c.mp4'', fsize = 52428800, category = Some media\<rparr>,
      \<lparr>path = ''/data/d/c.mp4'', name = ''c.mp4'', fsize = 52428800,
       category = Some duplicates\<rparr>]"
  unfolding scenario_walk by (simp add: dedup_eval)

lemma scenario_dedup':
  "markDuplicates (walkRoot scenarioCfg scenarioTree') =
     [\<lparr>path = ''/data/c.mp4'', name = ''c.mp4'', fsize = 52428800, category = Some media\<rparr>,
      \<lparr>path = ''/data/b.mp4'', name = ''b.mp4'', fsize = 52428800, category = Some media\<rparr>,
      \<lparr>path = ''/data/logs/a.log'', name = ''a.log'', fsize = 10485760,
       category = Some logs\<rparr>,
      \<lparr>path = ''/data/d/c.mp4'', name = ''c.mp4'', fsize = 52428800,
       category = Some duplicates\<rparr>]"
  unfolding scenario_walk' by (simp add: dedup_eval)

lemma scenario_scan:
  "map (\<lambda>c. (cid c, sizeMB c)) (categories (scanRoot scenarioCfg now scenarioTree))
     = [(cache, 0), (downloads, 0), (duplicates, 50), (media, 100), (logs, 10)]"
  "totalUsedMB (scanRoot scenarioCfg now scenarioTree) = 160"
  "totalReclaimableMB (scanRoot scenarioCfg now scenarioTree) = 160"
  unfolding scanRoot_def scenario_dedup by (simp_all add: summary_eval)

lemma scenario_scan':
  "map (\<lambda>c. (cid c, sizeMB c)) (categories (scanRoot scenarioCfg now scenarioTree'))
     = [(cache, 0), (downloads, 0), (duplicates, 50), (media, 100), (logs, 10)]"
  "totalUsedMB (scanRoot scenarioCfg now scenarioTree') = 160"
  "totalReclaimableMB (scanRoot scenarioCfg now scenarioTree') = 160"
  unfolding scanRoot_def scenario_dedup' by (simp_all add: summary_eval)

section \<open>Claims about the walker\<close>

text \<open>
  Claim C7, as amended. For the root that holds \<open>a.log\<close> (10 MB), \<open>b.mp4\<close>
  (50 MB), \<open>c.mp4\<close> (50 MB) and \<open>d/c.mp4\<close> (50 MB), in either listing, the
  snapshot reports logs 10 MB, media 100 MB (\<open>b.mp4\<close> and the first \<open>c.mp4\<close>),
  duplicates 50 MB, and 160 MB both used and reclaimable.
\<close>

theorem scenario_snapshot:
  "map (\<lambda>c. (cid c, sizeMB c)) (categories (scanRoot scenarioCfg now scenarioTree))
     = [(cache, 0), (downloads, 0), (duplicates, 50), (media, 100), (logs, 10)] \<and>
   totalUsedMB (scanRoot scenarioCfg now scenarioTree) = 160 \<and>
   totalReclaimableMB (scanRoot scenarioCfg now scenarioTree) = 160 \<and>
   map (\<lambda>c. (cid c, sizeMB c)) (categories (scanRoot scenarioCfg now scenarioTree'))
     = [(cache, 0), (downloads, 0), (duplicates, 50), (media, 100), (logs, 10)] \<and>
   totalUsedMB (scanRoot scenarioCfg now scenarioTree') = 160 \<and>
   totalReclaimableMB (scanRoot scenarioCfg now scenarioTree') = 160"
  by (simp only: scenario_scan scenario_scan' simp_thms)

text \<open>
  Claim C7 as stated (media 50 MB, 110 MB reclaimable) does not hold of the
  scenario.
\<close>

theorem scenario_snapshot_not_as_claimed:
  "\<not> (map (\<lambda>c. (cid c, sizeMB c))
         (categories (scanRoot scenarioCfg ''2024-01-01T00:00:00.000Z'' scenarioTree))
        = [(cache, 0), (downloads, 0), (duplicates, 50), (media, 50), (logs, 10)] \<and>
      110 \<le> totalUsedMB (scanRoot scenarioCfg ''2024-01-01T00:00:00.000Z'' scenarioTree) \<and>
      totalReclaimableMB (scanRoot scenarioCfg ''2024-01-01T00:00:00.000Z'' scenarioTree) = 110)"
  by (simp add: scenario_scan)

text \<open>
  Claim C8, as amended. The server's walk is the walk of the tree with every
  directory named \<open>node_modules\<close>, \<open>.git\<close> or \<open>.expo\<close> removed, whatever
  those directories hold, and a root that holds such directories only gives no
  file. The client's walk has no ignored set: it emits the files of the whole
  tree, up to its cap.
\<close>

theorem walk_skips_ignored:
  "walkRoot cfg t = walkRoot cfg (prune t) \<and>
   ((\<forall>(nm, e) \<in> set es. isDirectory e \<and> nm \<in> set IGNORED_DIRS)
      \<longrightarrow> walkRoot cfg (Dir es) = []) \<and>
   scanSafTree eng uri s [] = take MAX_SCAN_FILES (safFiles eng uri s)"
proof (intro conjI impI)
  show "walkRoot cfg t = walkRoot cfg (prune t)" by (simp only: walkRoot_prune)
next
  assume "\<forall>(nm, e) \<in> set es. isDirectory e \<and> nm \<in> set IGNORED_DIRS"
  then have "prune (Dir es) = Dir []" by (simp add: pruneEntries_all_ignored)
  then show "walkRoot cfg (Dir es) = []"
    using walkRoot_prune[of cfg "Dir es"] by (simp add: walkRoot_empty_dir)
next
  show "scanSafTree eng uri s [] = take MAX_SCAN_FILES (safFiles eng uri s)"
    by (rule scanSafTree_all)
qed

text \<open>A root with \<open>node_modules\<close>, \<open>.git\<close> and \<open>.expo\<close> only.\<close>

theorem walk_skips_ignored_witness:
  "walkRoot scenarioCfg ignoredOnlyTree = []"
proof -
  have "\<forall>(nm, e) \<in> set [(''node_modules'', Dir [(''x.log'', File (Some 5) True)]),
            (''.git'', DirUnreadable), (''.expo'', Dir [])].
          isDirectory e \<and> nm \<in> set IGNORED_DIRS"
    by (simp add: IGNORED_DIRS_def)
  with walk_skips_ignored[of scenarioCfg Other
          "[(''node_modules'', Dir [(''x.log'', File (Some 5) True)]),
            (''.git'', DirUnreadable), (''.expo'', Dir [])]"
          asciiEngine "''content://tree/root''" SafMissing]
  show ?thesis by (simp add: ignoredOnlyTree_def)
qed

text \<open>
  Claim C8 as stated does not hold of the client: a folder that holds a
  \<open>node_modules\<close> directory only yields the file inside it.
\<close>

theorem client_walk_enters_ignored:
  "scanSafTree asciiEngine ''content://tree/root'' safIgnoredOnlyTree [] =
     [\<lparr>path = ''content://tree/root/node_modules/x.log'', name = ''x.log'', fsize = 5,
       category = Some logs\<rparr>]"
  by (simp add: safIgnoredOnlyTree_def MAX_SCAN_FILES_def categorize_eval)

text \<open>
  Claim C9. The client's walk emits the first 1500 files of the tree and no more;
  the flag and the note report a limited scan exactly when the tree has 1500 files
  or more. The server's walk has no cap: on a directory of \<open>n\<close> files it emits
  \<open>n\<close> records, for every \<open>n\<close>.
\<close>

theorem client_walk_capped:
  "length (scanSafTree eng uri t []) \<le> 1500 \<and>
   scanSafTree eng uri t [] = take 1500 (safFiles eng uri t) \<and>
   ds_files (scanDeviceStorage eng uri t) = take 1500 (safFiles eng uri t) \<and>
   ds_limitReached (scanDeviceStorage eng uri t) = (1500 \<le> length (safFiles eng uri t)) \<and>
   ds_scanNote (scanDeviceStorage eng uri t)
     = (if 1500 \<le> length (safFiles eng uri t) then ''Scan limited to 1500 files.''
        else ''Scan complete.'') \<and>
   length (walkRoot cfg (flatDir n)) = n"
  by (simp add: scanDeviceStorage_def Let_def scanSafTree_all MAX_SCAN_FILES_def walkRoot_flatDir)

section \<open>Strings\<close>



lemma toLowerChar_idem: "toLowerChar (toLowerChar c) = toLowerChar c"
  by (simp add: toLowerChar_def Let_def)

lemma asciiLower_idem: "asciiLower (asciiLower s) = asciiLower s"
  by (simp add: asciiLower_def toLowerChar_idem)






section \<open>Segments\<close>








section \<open>Extensions\<close>











section \<open>The deletion batch\<close>

lemma deleteStep_outside: "\<not> withinRoot cfg (path f) \<Longrightarrow> deleteStep cfg f b = b"
  by (simp add: deleteStep_def)

lemma fold_deleteStep_filter:
  "fold (deleteStep cfg) fs b
     = fold (deleteStep cfg) (filter (\<lambda>f. withinRoot cfg (path f)) fs) b"
  by (induction fs arbitrary: b) (simp_all add: deleteStep_outside)

lemma deleteStep_calls:
  "unlinkCalls (deleteStep cfg f b)
     = unlinkCalls b @ (if withinRoot cfg (path f) then [path f] else [])"
  by (simp add: deleteStep_def split: option.splits)

lemma fold_deleteStep_calls:
  "unlinkCalls (fold (deleteStep cfg) fs b)
     = unlinkCalls b @ map path (filter (\<lambda>f. withinRoot cfg (path f)) fs)"
  by (induction fs arbitrary: b) (simp_all add: deleteStep_calls)

lemma deleteStep_counts:
  "cleanedFiles (deleteStep cfg f b)
     \<le> cleanedFiles b + (if withinRoot cfg (path f) then 1 else 0)"
  "cleanedBytes (deleteStep cfg f b)
     \<le> cleanedBytes b + (if withinRoot cfg (path f) then fsize f else 0)"
  "simulated (deleteStep cfg f b) = simulated b"
  by (simp_all add: deleteStep_def split: option.splits)

lemma fold_deleteStep_counts:
  "cleanedFiles (fold (deleteStep cfg) fs b)
     \<le> cleanedFiles b + length (filter (\<lambda>f. withinRoot cfg (path f)) fs)"
  "cleanedBytes (fold (deleteStep cfg) fs b)
     \<le> cleanedBytes b + sum_list (map fsize (filter (\<lambda>f. withinRoot cfg (path f)) fs))"
  "simulated (fold (deleteStep cfg) fs b) = simulated b"
proof (induction fs arbitrary: b)
  case Nil
  {
    case 1 show ?case by simp
  next
    case 2 show ?case by simp
  next
    case 3 show ?case by simp
  }
next
  case (Cons f fs)
  {
    case 1
    show ?case using Cons.IH(1)[of "deleteStep cfg f b"] deleteStep_counts(1)[of cfg f b]
      by (simp split: if_splits)
  next
    case 2
    show ?case using Cons.IH(2)[of "deleteStep cfg f b"] deleteStep_counts(2)[of cfg f b]
      by (simp split: if_splits)
  next
    case 3
    show ?case using Cons.IH(3)[of "deleteStep cfg f b"] by (simp add: deleteStep_counts(3))
  }
qed










lemma withinRoot_iff:
  "withinRoot cfg p \<longleftrightarrow>
     (\<exists>rest. path_resolve (cwd cfg) p
               = path_resolve (cwd cfg) (STORAGE_ROOT cfg) @ ''/'' @ rest)"
proof -
  have "startsWith s q \<longleftrightarrow> (\<exists>b. s = q @ b)" for s q
    by (induction s q rule: startsWith.induct) auto
  then show ?thesis by (simp add: withinRoot_def Let_def sep_def)
qed

section \<open>The client's deletion loop\<close>

lemma deviceDeleteStep_calls:
  "d_deleteCalls (deviceDeleteStep rootUri f b) = d_deleteCalls b @ [path f]"
  by (simp add: deviceDeleteStep_def split: prod.splits del_result.splits)

lemma fold_deviceDeleteStep_calls:
  "d_deleteCalls (fold (deviceDeleteStep rootUri) fs b) = d_deleteCalls b @ map path fs"
  by (induction fs arbitrary: b) (simp_all add: deviceDeleteStep_calls)

lemma deviceDeleteLoop_calls:
  "d_deleteCalls (deviceDeleteLoop rootUri fs t) = map path fs"
  by (simp add: deviceDeleteLoop_def fold_deviceDeleteStep_calls)

section \<open>The handler\<close>




lemma recordHistory_length: "length (recordHistory e h) \<le> 10"
  by (simp add: recordHistory_def)












section \<open>Writing the ledger changes no other file\<close>

lemma writeNode_kind [simp]:
  "isDirectory (writeNode wd target base sz p n) = isDirectory n"
  "isFile (writeNode wd target base sz p n) = isFile n"
  "stat_size (writeNode wd target base sz p n) = stat_size n"
  by (cases n; simp)+

















section \<open>Claims about the containment guard\<close>

text \<open>
  The batch in apply mode on three candidates: only the one inside the root is
  handed to \<open>unlink\<close>, removed and counted.
\<close>

lemma apply_example:
  "cleanBatch applyCfg applyCandidates applyTree =
     \<lparr>cleanedBytes = 5, cleanedFiles = 1, simulated = False,
      fs_after = Dir [(''y.log'', File (Some 7) True)], unlinkCalls = [''/root/x.log''],
      unlinked = [''/root/x.log'']\<rparr>"
  by (simp add: cleanBatch_def applyCfg_def applyCandidates_def applyTree_def deleteStep_def
      withinRoot_def unlink_def path_eval)

text \<open>
  Claim C1, as amended. On the server, in apply mode, the batch behaves as if the
  candidates whose path does not resolve inside the root were not in the list:
  \<open>unlink\<close> is called on the candidates that pass \<open>withinRoot\<close> and on no
  other path, and only they can be counted. \<open>withinRoot\<close> holds exactly when the
  resolved path is the resolved root, a separator, and a rest, so \<open>/root2/x.log\<close>
  is outside \<open>/root\<close>. The client's loop has no such check: it calls
  \<open>deleteAsync\<close> on every candidate.
\<close>

theorem containment_guard:
  assumes "ALLOW_DELETE cfg"
  shows "cleanBatch cfg filesToClean t
           = cleanBatch cfg (filter (\<lambda>f. withinRoot cfg (path f)) filesToClean) t \<and>
         unlinkCalls (cleanBatch cfg filesToClean t)
           = map path (filter (\<lambda>f. withinRoot cfg (path f)) filesToClean) \<and>
         cleanedFiles (cleanBatch cfg filesToClean t)
           \<le> length (filter (\<lambda>f. withinRoot cfg (path f)) filesToClean) \<and>
         cleanedBytes (cleanBatch cfg filesToClean t)
           \<le> sum_list (map fsize (filter (\<lambda>f. withinRoot cfg (path f)) filesToClean)) \<and>
         (withinRoot cfg p \<longleftrightarrow>
            (\<exists>rest. path_resolve (cwd cfg) p
                      = path_resolve (cwd cfg) (STORAGE_ROOT cfg) @ ''/'' @ rest)) \<and>
         \<not> withinRoot applyCfg ''/root2/x.log'' \<and> withinRoot applyCfg ''/root/x.log'' \<and>
         d_deleteCalls (deviceDeleteLoop rootUri targetFiles s) = map path targetFiles"
proof -
  have a: "cleanBatch cfg filesToClean t
      = cleanBatch cfg (filter (\<lambda>f. withinRoot cfg (path f)) filesToClean) t"
    using assms fold_deleteStep_filter[of cfg filesToClean]
    by (simp add: cleanBatch_def)
  have b: "unlinkCalls (cleanBatch cfg filesToClean t)
      = map path (filter (\<lambda>f. withinRoot cfg (path f)) filesToClean)"
    using assms by (simp add: cleanBatch_def fold_deleteStep_calls)
  have c: "cleanedFiles (cleanBatch cfg filesToClean t)
      \<le> length (filter (\<lambda>f. withinRoot cfg (path f)) filesToClean)"
    using assms fold_deleteStep_counts(1)[of cfg filesToClean
        "\<lparr>cleanedBytes = 0, cleanedFiles = 0, simulated = False, fs_after = t,
          unlinkCalls = [], unlinked = []\<rparr>"]
    by (simp add: cleanBatch_def)
  have d: "cleanedBytes (cleanBatch cfg filesToClean t)
      \<le> sum_list (map fsize (filter (\<lambda>f. withinRoot cfg (path f)) filesToClean))"
    using assms fold_deleteStep_counts(2)[of cfg filesToClean
        "\<lparr>cleanedBytes = 0, cleanedFiles = 0, simulated = False, fs_after = t,
          unlinkCalls = [], unlinked = []\<rparr>"]
    by (simp add: cleanBatch_def)
  have e: "\<not> withinRoot applyCfg ''/root2/x.log''" "withinRoot applyCfg ''/root/x.log''"
    by (simp_all add: withinRoot_def applyCfg_def path_eval)
  from a b c d e withinRoot_iff[of cfg p] deviceDeleteLoop_calls[of rootUri targetFiles s]
  show ?thesis by blast
qed

text \<open>
  The guard on the three candidates of \<open>applyCandidates\<close>: \<open>unlink\<close> is called
  on \<open>/root/x.log\<close> only.
\<close>

theorem containment_guard_witness:
  "unlinkCalls (cleanBatch applyCfg applyCandidates applyTree) = [''/root/x.log''] \<and>
   cleanedFiles (cleanBatch applyCfg applyCandidates applyTree) \<le> 1 \<and>
   cleanedBytes (cleanBatch applyCfg applyCandidates applyTree) \<le> 5"
proof -
  have "ALLOW_DELETE applyCfg" by (simp add: applyCfg_def)
  note g = containment_guard[OF this, of applyCandidates applyTree "''/root/x.log''"
         "''content://tree/root''" "[]" SafMissing]
  have f: "filter (\<lambda>f. withinRoot applyCfg (path f)) applyCandidates
      = [\<lparr>path = ''/root/x.log'', name = ''x.log'', fsize = 5, category = Some logs\<rparr>]"
    by (simp add: applyCandidates_def withinRoot_def applyCfg_def path_eval)
  from g[THEN conjunct2, THEN conjunct1]
       g[THEN conjunct2, THEN conjunct2, THEN conjunct1]
       g[THEN conjunct2, THEN conjunct2, THEN conjunct2, THEN conjunct1]
  show ?thesis unfolding f by simp
qed

text \<open>
  Claim C1 as stated does not hold of the client. A folder whose listing returns
  the document \<open>content://tree/root2/x.log\<close>, which is not inside
  \<open>content://tree/root\<close>: \<open>runDeviceClean\<close> deletes it and counts it.
\<close>

theorem client_clean_unguarded:
  "\<not> withinRoot
       \<lparr>STORAGE_ROOT = ''content://tree/root'', ALLOW_DELETE = True, cwd = ''/'',
        DATA_PATH = ''/storage.json'', engine = asciiEngine, ledgerSize = sampleLedgerSize\<rparr>
       ''content://tree/root2/x.log'' \<and>
   (case runDeviceClean asciiEngine (clockAt 1) (Some ''content://tree/root'') True [''logs'']
           strayWorld of
      (Cleaned r, w') \<Rightarrow>
        dr_deleteCalls r = [''content://tree/root2/x.log''] \<and> dr_cleanedFiles r = 1 \<and>
        dr_cleanedBytes r = 5 \<and> saf strayWorld \<noteq> saf w' \<and> saf w' = SafDir []
    | (other, w') \<Rightarrow> False)"
  by (simp add: withinRoot_def path_eval runDeviceClean_def strayWorld_def Let_def
      MAX_SCAN_FILES_def categorize_eval buildCategories_def dedup_eval
      buildCategoryFiles_def pushCategory_def categoryOfId_def deviceDeleteLoop_def
      deviceDeleteStep_def deleteAsync_def)

section \<open>Claims about the cleaner and the ledger\<close>









text \<open>
  A clean that unlinks its own ledger. The server is installed below the root, in
  a folder named \<open>downloads\<close>, and runs in apply mode. Selecting \<open>downloads\<close>
  removes \<open>old.iso\<close> and \<open>storage.json\<close>; \<open>loadStore()\<close> then finds no ledger,
  and the ledger that is saved holds the new entry only.
\<close>

lemma downloads_walk:
  "walkRoot downloadsCfg (fsRoot downloadsWorld) =
     [\<lparr>path = ''/home/u/downloads/old.iso'', name = ''old.iso'', fsize = 1048576,
       category = Some downloads\<rparr>,
      \<lparr>path = ''/home/u/downloads/app/storage.json'', name = ''storage.json'', fsize = 219,
       category = Some downloads\<rparr>]"
  by (simp add: downloadsCfg_def downloadsWorld_def walk_eval path_eval categorize_eval)

lemma downloads_files:
  "categoryFiles (scanRoot downloadsCfg now (fsRoot downloadsWorld)) downloads =
     [\<lparr>path = ''/home/u/downloads/old.iso'', name = ''old.iso'', fsize = 1048576,
       category = Some downloads\<rparr>,
      \<lparr>path = ''/home/u/downloads/app/storage.json'', name = ''storage.json'', fsize = 219,
       category = Some downloads\<rparr>]"
  unfolding scanRoot_def downloads_walk by (simp add: dedup_eval summary_eval)

lemma downloads_batch:
  "cleanBatch downloadsCfg
     [\<lparr>path = ''/home/u/downloads/old.iso'', name = ''old.iso'', fsize = 1048576,
       category = Some downloads\<rparr>,
      \<lparr>path = ''/home/u/downloads/app/storage.json'', name = ''storage.json'', fsize = 219,
       category = Some downloads\<rparr>] (fsRoot downloadsWorld) =
     \<lparr>cleanedBytes = 1048795, cleanedFiles = 2, simulated = False,
      fs_after = Dir [(''app'', Dir [])],
      unlinkCalls = [''/home/u/downloads/old.iso'', ''/home/u/downloads/app/storage.json''],
      unlinked = [''/home/u/downloads/old.iso'', ''/home/u/downloads/app/storage.json'']\<rparr>"
  by (simp add: cleanBatch_def downloadsCfg_def downloadsWorld_def deleteStep_def
      withinRoot_def unlink_def path_eval)

lemma ledger_unlinked_by_batch:
  "map e_id (loadStore (storeFile downloadsWorld)) = [''clean_5''] \<and>
   (case clean downloadsCfg (clockAt 7) (Body (IdArray [''downloads''])) downloadsWorld of
      (Inr r, w') \<Rightarrow>
        r_cleanedFiles r = 2 \<and> r_cleanedMB r = 1 \<and> \<not> r_simulated r \<and>
        map e_id (r_history r) = [''clean_7''] \<and>
        loadStore (storeFile w') = r_history r \<and>
        fsRoot w' = Dir [(''app'', Dir [(''storage.json'', File (Some 219) True)])]
    | (Inl e, w') \<Rightarrow> False)"
proof -
  have t: "targetIdsOf (Body (IdArray [''downloads''])) = [''downloads'']"
    by (simp add: targetIdsOf_def newSet_def setAdd_def)
  have c: "collectFiles (categoryFiles (scanRoot downloadsCfg now (fsRoot downloadsWorld)))
      [''downloads''] [] =
     Inr [\<lparr>path = ''/home/u/downloads/old.iso'', name = ''old.iso'', fsize = 1048576,
       category = Some downloads\<rparr>,
      \<lparr>path = ''/home/u/downloads/app/storage.json'', name = ''storage.json'', fsize = 219,
       category = Some downloads\<rparr>]" for now
    by (simp add: categoryOfId_def downloads_files)
  have u: "ledgerUnlinked downloadsCfg \<lparr>cleanedBytes = 1048795, cleanedFiles = 2, simulated = False,
      fs_after = Dir [(''app'', Dir [])],
      unlinkCalls = [''/home/u/downloads/old.iso'', ''/home/u/downloads/app/storage.json''],
      unlinked = [''/home/u/downloads/old.iso'', ''/home/u/downloads/app/storage.json'']\<rparr>"
    by (simp add: ledgerUnlinked_def downloadsCfg_def path_eval)
  have w: "writeLedger downloadsCfg (Dir [(''app'', Dir [])]) 219
      = Dir [(''app'', Dir [(''storage.json'', File (Some 219) True)])]"
    by (simp add: writeLedger_def withinRoot_def downloadsCfg_def path_eval basenamePart_def)
  have s: "ledgerSize downloadsCfg [e] = 219" for e
    by (simp add: downloadsCfg_def sampleLedgerSize_def)
  have 1: "map e_id (loadStore (storeFile downloadsWorld)) = [''clean_5'']"
    by (simp add: downloadsWorld_def loadStore_def earlierEntry_def)
  have 2: "(case clean downloadsCfg (clockAt 7) (Body (IdArray [''downloads''])) downloadsWorld of
      (Inr r, w') \<Rightarrow>
        r_cleanedFiles r = 2 \<and> r_cleanedMB r = 1 \<and> \<not> r_simulated r \<and>
        map e_id (r_history r) = [''clean_7''] \<and>
        loadStore (storeFile w') = r_history r \<and>
        fsRoot w' = Dir [(''app'', Dir [(''storage.json'', File (Some 219) True)])]
    | (Inl e, w') \<Rightarrow> False)"
    unfolding clean_def Let_def t c
    by (simp add: downloads_batch storeAfterBatch_def u loadStore_def recordHistory_def s w
        saveStore_def historyEntry_def toMB_div cleanId_def clockAt_def numToString.simps
        digitChar_def char_of_eq_iff)
  show ?thesis by (rule conjI[OF 1 2])
qed



section \<open>Claims about the categorizer\<close>





text \<open>
  When lower-casing lengthens the name, the client takes the extension at the wrong
  place: two names with the same lower-case form get different categories.
\<close>

lemma lengthened_name:
  "toLowerCase lengtheningEngine (CHR 0xDD # ''.log'')
     = toLowerCase lengtheningEngine (CHR ''i'' # CHR 0xCC # ''.log'') \<and>
   \<not> keepsLastDot lengtheningEngine (CHR 0xDD # ''.log'') \<and>
   categorizeName lengtheningEngine (CHR 0xDD # ''.log'') ''content://tree/7'' = None \<and>
   categorizeName lengtheningEngine (CHR ''i'' # CHR 0xCC # ''.log'') ''content://tree/7''
     = Some logs"
  by (simp add: lengtheningEngine_def keepsLastDot_def categorizeName_def toLowerChar_def
      char_of_eq_iff sliceFrom_def MEDIA_EXTS_def LOG_EXTS_def)




end
